theory Spec2Isabelle
  imports Main "HOL-Library.Multiset"
begin

section \<open>Python values, exceptions and strings\<close>

text \<open>
  The program is a single Python module, \<^verbatim>\<open>winpos.py\<close>. Python's \<^verbatim>\<open>str\<close> is modelled
  as \<^typ>\<open>string\<close> (code points up to 255), Python's unbounded \<^verbatim>\<open>int\<close> as \<^typ>\<open>int\<close>.
  Every exception the module can raise is a constructor of \<open>error\<close>, and a function
  that can raise returns \<open>error + 'a\<close>.
\<close>

datatype error =
    AssertionError
  | ValueError
  | TypeError
  | AttributeError
  | KeyError
  | IndexError
  | OverflowError
  | ZeroDivisionError
  | OSError
  | CalledProcessError string

definition bindE :: "error + 'a \<Rightarrow> ('a \<Rightarrow> error + 'b) \<Rightarrow> error + 'b" where
  "bindE m f = (case m of Inl e \<Rightarrow> Inl e | Inr v \<Rightarrow> f v)"

text \<open>\<^verbatim>\<open>str.isspace\<close> on code points below 256, the set \<^verbatim>\<open>str.strip()\<close> removes.\<close>

definition isspace :: "char \<Rightarrow> bool" where
  "isspace c = ((of_char c :: nat) \<in> {9, 10, 11, 12, 13, 28, 29, 30, 31, 32, 133, 160})"

definition strip_chars :: "(char \<Rightarrow> bool) \<Rightarrow> string \<Rightarrow> string" where
  "strip_chars p s = rev (dropWhile p (rev (dropWhile p s)))"

definition strip :: "string \<Rightarrow> string" where
  "strip s = strip_chars isspace s"

text \<open>
  \<^verbatim>\<open>s.split(sep)\<close> for a non-empty separator: the non-overlapping occurrences of
  \<open>sep\<close>, found left to right, cut the string; the result is never empty. Every call
  in the module passes a literal, non-empty separator (Python raises on an empty one).
\<close>

function split_aux :: "string \<Rightarrow> string \<Rightarrow> string \<Rightarrow> string list" where
  "split_aux sep acc [] = [rev acc]"
| "split_aux sep acc (c # cs) =
     (if take (length sep) (c # cs) = sep
      then rev acc # split_aux sep [] (drop (length sep - 1) cs)
      else split_aux sep (c # acc) cs)"
  by pat_completeness auto
termination
  by (relation "measure (\<lambda>(sep, acc, s). length s)") auto

definition split :: "string \<Rightarrow> string \<Rightarrow> string list" where
  "split sep s = split_aux sep [] s"

text \<open>
  \<^verbatim>\<open>int(s)\<close> on a string, base 10: surrounding whitespace is skipped (the C whitespace
  characters, and the two Latin-1 spaces 133 and 160), then an optional sign, then decimal
  digits in which single underscores may separate digits. Anything else is a
  \<^verbatim>\<open>ValueError\<close>, and so is a string with more than 4300 digits (the interpreter's
  default limit; underscores, sign and whitespace do not count).
\<close>

definition int_space :: "char \<Rightarrow> bool" where
  "int_space c = ((of_char c :: nat) \<in> {9, 10, 11, 12, 13, 32, 133, 160})"

definition is_digit :: "char \<Rightarrow> bool" where
  "is_digit c = (48 \<le> (of_char c :: nat) \<and> (of_char c :: nat) \<le> 57)"

definition digit_val :: "char \<Rightarrow> int" where
  "digit_val c = int (of_char c) - 48"

fun parse_digits :: "int \<Rightarrow> string \<Rightarrow> error + int" where
  "parse_digits acc [] = Inr acc"
| "parse_digits acc [c] =
     (if is_digit c then Inr (acc * 10 + digit_val c) else Inl ValueError)"
| "parse_digits acc (c # d # ds) =
     (if is_digit c then parse_digits (acc * 10 + digit_val c) (d # ds)
      else if c = CHR ''_'' \<and> is_digit d then parse_digits (acc * 10 + digit_val d) ds
      else Inl ValueError)"

definition parse_unsigned :: "string \<Rightarrow> error + int" where
  "parse_unsigned s =
     (if 4300 < length (filter is_digit s) then Inl ValueError
      else case s of
        [] \<Rightarrow> Inl ValueError
      | c # cs \<Rightarrow> if is_digit c then parse_digits (digit_val c) cs else Inl ValueError)"

definition py_int :: "string \<Rightarrow> error + int" where
  "py_int s =
     (case strip_chars int_space s of
        [] \<Rightarrow> Inl ValueError
      | c # cs \<Rightarrow>
          if c = CHR ''-'' then bindE (parse_unsigned cs) (\<lambda>n. Inr (- n))
          else if c = CHR ''+'' then parse_unsigned cs
          else parse_unsigned (c # cs))"

section \<open>Screen topology parser\<close>

text \<open>
  The dictionary \<^verbatim>\<open>get_screen_data\<close> builds has a fixed set of keys; \<^verbatim>\<open>name\<close> is always
  set, every other key may be absent. A record with optional fields holds it.
\<close>

record screen =
  s_name :: string
  s_index :: "int option"
  s_current :: "bool option"
  s_x :: "int option"
  s_y :: "int option"
  s_width :: "int option"
  s_width_mm :: "int option"
  s_height :: "int option"
  s_height_mm :: "int option"

fun int_all :: "string list \<Rightarrow> error + int list" where
  "int_all [] = Inr []"
| "int_all (s # ss) =
     bindE (py_int s) (\<lambda>n. bindE (int_all ss) (\<lambda>ns. Inr (n # ns)))"

text \<open>
  \<^verbatim>\<open>a, b = _get_px_mm(part)\<close>: every piece between slashes is converted, then the tuple
  is unpacked into exactly two targets (\<^verbatim>\<open>ValueError\<close> on any other length).
\<close>

definition get_px_mm :: "string \<Rightarrow> error + int \<times> int" where
  "get_px_mm d =
     bindE (int_all (split ''/'' d))
       (\<lambda>ns. case ns of [a, b] \<Rightarrow> Inr (a, b) | _ \<Rightarrow> Inl ValueError)"

definition parse_index :: "screen \<Rightarrow> string \<Rightarrow> error + screen \<times> string" where
  "parse_index res screen_data =
     (case split '' '' (strip screen_data) of
        [d0, d1, d2] \<Rightarrow>
          bindE (py_int (strip_chars (\<lambda>c. c = CHR '':'') d0))
            (\<lambda>i. Inr (res\<lparr>s_index := Some i, s_current := Some (CHR ''*'' \<in> set d1)\<rparr>, d2))
      | _ \<Rightarrow> Inr (res, screen_data))"

definition parse_origin :: "screen \<Rightarrow> string \<Rightarrow> error + screen \<times> string" where
  "parse_origin res screen_data =
     (case split ''+'' screen_data of
        [d0, d1, d2] \<Rightarrow>
          bindE (py_int d1) (\<lambda>x.
          bindE (py_int d2) (\<lambda>y.
            Inr (res\<lparr>s_x := Some x, s_y := Some y\<rparr>, d0)))
      | _ \<Rightarrow> Inr (res, screen_data))"

definition parse_extent :: "screen \<Rightarrow> string \<Rightarrow> error + screen" where
  "parse_extent res screen_data =
     (case split ''x'' screen_data of
        [d0, d1] \<Rightarrow>
          bindE (get_px_mm d0) (\<lambda>(w, wmm).
          bindE (get_px_mm d1) (\<lambda>(h, hmm).
            Inr (res\<lparr>s_width := Some w, s_width_mm := Some wmm,
                     s_height := Some h, s_height_mm := Some hmm\<rparr>)))
      | _ \<Rightarrow> Inr res)"

text \<open>
  \<^verbatim>\<open>get_screen_data\<close>: \<open>Inr None\<close> is Python's \<^verbatim>\<open>None\<close>, \<open>Inl\<close> an exception
  leaving the function. The three stages are the three \<^verbatim>\<open>if len(data) == ...\<close> blocks.
\<close>

definition get_screen_data :: "string \<Rightarrow> error + screen option" where
  "get_screen_data line =
     (case split ''  '' (strip line) of
        [d0, d1] \<Rightarrow>
          bindE (parse_index
                   \<lparr>s_name = d1, s_index = None, s_current = None, s_x = None, s_y = None,
                    s_width = None, s_width_mm = None, s_height = None, s_height_mm = None\<rparr>
                   d0)
            (\<lambda>(res, screen_data).
          bindE (parse_origin res screen_data)
            (\<lambda>(res, screen_data).
          bindE (parse_extent res screen_data)
            (\<lambda>res. Inr (Some res))))
      | _ \<Rightarrow> Inr None)"

text \<open>
  \<^verbatim>\<open>x_key\<close> is the sort key \<^verbatim>\<open>lambda s: s.get('x', 0)\<close>. The loop of
  \<^verbatim>\<open>get_active_screens\<close> appends every result of \<^verbatim>\<open>get_screen_data\<close> that is not
  falsy; a returned dictionary always holds \<^verbatim>\<open>name\<close>, so only \<^verbatim>\<open>None\<close> is skipped.
  \<^verbatim>\<open>list.sort\<close> is stable, as \<^const>\<open>sort_key\<close> is.
\<close>

definition x_key :: "screen \<Rightarrow> int" where
  "x_key s = (case s_x s of None \<Rightarrow> 0 | Some v \<Rightarrow> v)"

fun monitors_loop :: "string list \<Rightarrow> screen list \<Rightarrow> error + screen list" where
  "monitors_loop [] res = Inr res"
| "monitors_loop (monitor # monitors) res =
     bindE (get_screen_data monitor)
       (\<lambda>screen_data. case screen_data of
            None \<Rightarrow> monitors_loop monitors res
          | Some s \<Rightarrow> monitors_loop monitors (res @ [s]))"

definition linesep :: string where
  "linesep = [CHR 0x0A]"

definition monitor_lines :: "string \<Rightarrow> string list" where
  "monitor_lines output = split linesep (strip output)"

text \<open>Lines 82 to 91 of \<^verbatim>\<open>get_active_screens\<close>: everything after the external call.\<close>

definition screens_of_output :: "string \<Rightarrow> error + screen list" where
  "screens_of_output output =
     bindE (monitors_loop (monitor_lines output) []) (\<lambda>res. Inr (sort_key x_key res))"

text \<open>The records a list of lines parses to, in order: the lines that give \<^verbatim>\<open>None\<close> fall out.\<close>

definition parsed_records :: "string list \<Rightarrow> screen list" where
  "parsed_records ls =
     List.map_filter (\<lambda>l. case get_screen_data l of Inl e \<Rightarrow> None | Inr r \<Rightarrow> r) ls"

section \<open>Floating-point division\<close>

text \<open>
  \<^verbatim>\<open>a / b\<close> on two Python integers is the binary64 number nearest to the exact
  quotient (ties to even), or \<^verbatim>\<open>OverflowError\<close> when that is not finite. A finite double
  is kept as mantissa and binary exponent: \<open>Dbl m e\<close> is \<open>m * 2 ^ e\<close>.
  \<^verbatim>\<open>int(f)\<close> truncates towards zero.
\<close>

datatype pyfloat = Dbl int int

function bit_length :: "int \<Rightarrow> int" where
  "bit_length n = (if n \<le> 0 then 0 else 1 + bit_length (n div 2))"
  by pat_completeness auto
termination
  by (relation "measure nat") auto

definition pow2 :: "int \<Rightarrow> int" where
  "pow2 k = 2 ^ nat k"

definition round_half_even :: "int \<Rightarrow> int \<Rightarrow> int" where
  "round_half_even n d =
     (let q = n div d; r = n mod d
      in if 2 * r < d then q
         else if d < 2 * r then q + 1
         else if even q then q else q + 1)"

text \<open>
  The binary exponent of a positive quotient \<open>n / d\<close>: the \<open>e\<close> with
  \<open>2 ^ e \<le> n / d < 2 ^ (e + 1)\<close>. The difference of the bit lengths is \<open>e\<close> or \<open>e + 1\<close>.
\<close>

definition quotient_exponent :: "int \<Rightarrow> int \<Rightarrow> int" where
  "quotient_exponent n d =
     (let dl = bit_length n - bit_length d
      in if d * pow2 dl \<le> n * pow2 (- dl) then dl else dl - 1)"

text \<open>
  The quotient is scaled so that the mantissa has 53 bits (fewer below the smallest normal
  number) and rounded to the nearest integer; a result of \<open>2 ^ 1024\<close> or more does not
  fit a double.
\<close>

definition truediv :: "int \<Rightarrow> int \<Rightarrow> error + pyfloat" where
  "truediv a b =
     (if b = 0 then Inl ZeroDivisionError
      else if a = 0 then Inr (Dbl 0 0)
      else
        let n = \<bar>a\<bar>; d = \<bar>b\<bar>;
            s = max (quotient_exponent n d - 52) (- 1074);
            m = round_half_even (n * pow2 (- s)) (d * pow2 s)
        in if 0 < s \<and> 2 ^ 1024 \<le> m * pow2 s then Inl OverflowError
           else Inr (Dbl (sgn a * sgn b * m) s))"

fun int_of_float :: "pyfloat \<Rightarrow> int" where
  "int_of_float (Dbl m e) =
     (if 0 \<le> e then m * pow2 e else sgn m * (\<bar>m\<bar> div pow2 (- e)))"

section \<open>The outside world\<close>

text \<open>
  Rule values come from a JSON document. The model has \<^verbatim>\<open>None\<close>, integers and strings;
  booleans, floats, arrays and objects as values of a rule are outside it.
\<close>

datatype pyval = PNone | PInt int | PStr string

fun truthy :: "pyval \<Rightarrow> bool" where
  "truthy PNone = False"
| "truthy (PInt n) = (n \<noteq> 0)"
| "truthy (PStr s) = (s \<noteq> [])"

text \<open>
  A piece of a formatted message or of a command line: literal text, the \<^verbatim>\<open>str()\<close> of a
  value (kept unrendered), or a \<^verbatim>\<open>bytes\<close> object. What the run does to the outside is a
  trace of events: an external command started with \<^verbatim>\<open>subprocess.check_output\<close>, or a
  line printed (its level and message). The environment answers a command with its
  output or with the exception \<^verbatim>\<open>check_output\<close> raises; the answer may depend on
  everything that happened before. Command output is taken as already decoded text.
\<close>

datatype frag = Lit string | Val pyval | Bytes string

datatype event = Call "frag list" | Print string "frag list"

type_synonym env = "event list \<Rightarrow> frag list \<Rightarrow> error + string"

type_synonym 'a io = "event list \<Rightarrow> (error + 'a) \<times> event list"

definition ret :: "'a \<Rightarrow> 'a io" where
  "ret v tr = (Inr v, tr)"

definition raise :: "error \<Rightarrow> 'a io" where
  "raise e tr = (Inl e, tr)"

definition bind :: "'a io \<Rightarrow> ('a \<Rightarrow> 'b io) \<Rightarrow> 'b io" where
  "bind m f tr = (case m tr of (Inl e, tr') \<Rightarrow> (Inl e, tr') | (Inr v, tr') \<Rightarrow> f v tr')"

definition lift :: "error + 'a \<Rightarrow> 'a io" where
  "lift r tr = (r, tr)"

definition check_output :: "env \<Rightarrow> frag list \<Rightarrow> string io" where
  "check_output env cmd tr = (env tr cmd, tr @ [Call cmd])"

text \<open>\<^verbatim>\<open>except subprocess.CalledProcessError as err\<close>: only that exception is handled.\<close>

definition except_called_process_error :: "'a io \<Rightarrow> (string \<Rightarrow> 'a io) \<Rightarrow> 'a io" where
  "except_called_process_error m h tr =
     (case m tr of
        (Inl (CalledProcessError out), tr') \<Rightarrow> h out tr'
      | r \<Rightarrow> r)"

definition log :: "frag list \<Rightarrow> string \<Rightarrow> unit io" where
  "log msg level tr = (Inr (), tr @ [Print level msg])"

definition get_active_screens :: "env \<Rightarrow> screen list io" where
  "get_active_screens env =
     bind (check_output env [Lit ''xrandr'', Lit ''--listactivemonitors''])
       (\<lambda>output. lift (screens_of_output output))"

section \<open>Geometry resolver\<close>

text \<open>
  The two patterns of \<^verbatim>\<open>calc_size\<close>, \<^verbatim>\<open>^[0-9]{1,4}$\<close> and \<^verbatim>\<open>^[0-9]{1,3}%$\<close>, matched
  with \<^verbatim>\<open>re.match\<close>: \<^verbatim>\<open>$\<close> matches at the end of the string and also just before one
  final newline.
\<close>

definition digits_upto :: "nat \<Rightarrow> string \<Rightarrow> bool" where
  "digits_upto k s = (s \<noteq> [] \<and> length s \<le> k \<and> list_all is_digit s)"

definition before_final_newline :: "string \<Rightarrow> string" where
  "before_final_newline s = (if s \<noteq> [] \<and> last s = CHR 0x0A then butlast s else s)"

definition match_integer :: "string \<Rightarrow> bool" where
  "match_integer s = digits_upto 4 (before_final_newline s)"

definition match_percentage :: "string \<Rightarrow> bool" where
  "match_percentage s =
     (let t = before_final_newline s
      in t \<noteq> [] \<and> last t = CHR ''%'' \<and> digits_upto 3 (butlast t))"

text \<open>
  \<^verbatim>\<open>calc_size(source, target)\<close>. An integer source is clamped; a string source is
  stripped and matched against the two patterns; anything else is logged and gives 0.
  \<^verbatim>\<open>None\<close> has no \<^verbatim>\<open>strip\<close>. The percentage goes through float division.
\<close>

definition calc_size :: "pyval \<Rightarrow> int \<Rightarrow> int io" where
  "calc_size source target =
     (case source of
        PInt n \<Rightarrow> ret (min (if 0 < n then n else 0) target)
      | PNone \<Rightarrow> raise AttributeError
      | PStr str \<Rightarrow>
          let source = strip str in
          if match_integer source then
            bind (lift (py_int source)) (\<lambda>n. ret (min n target))
          else if match_percentage source then
            bind (lift (py_int (filter (\<lambda>c. c \<noteq> CHR ''%'') source))) (\<lambda>perc.
              let perc = (if 0 < perc \<and> perc \<le> 100 then perc else 100) in
              bind (lift (truediv (target * perc) 100)) (\<lambda>f. ret (int_of_float f)))
          else
            bind (log [Lit ''Invalid size '', Val (PStr source)] ''error'') (\<lambda>_. ret 0))"

text \<open>\<^verbatim>\<open>str.lower\<close> on code points below 256.\<close>

definition lower_char :: "char \<Rightarrow> char" where
  "lower_char c =
     (let n = (of_char c :: nat)
      in if (65 \<le> n \<and> n \<le> 90) \<or> (192 \<le> n \<and> n \<le> 222 \<and> n \<noteq> 215)
         then char_of (n + 32) else c)"

definition lower :: "string \<Rightarrow> string" where
  "lower s = map lower_char s"

definition endswith_percent :: "string \<Rightarrow> bool" where
  "endswith_percent s = (s \<noteq> [] \<and> last s = CHR ''%'')"

text \<open>
  \<^verbatim>\<open>calc_pos\<close>. The vertical chain runs first, then the horizontal one. A position
  that is not a string has no \<^verbatim>\<open>split\<close>. \<^verbatim>\<open>int\<close> of an integer is that integer.
\<close>

definition calc_pos :: "pyval \<Rightarrow> int \<Rightarrow> int \<Rightarrow> int \<Rightarrow> int \<Rightarrow> (int \<times> int) io" where
  "calc_pos position width height screen_width screen_height =
     (case position of
        PStr p \<Rightarrow>
          (case split '' '' p of
             [p0, p1] \<Rightarrow>
               let vert = lower p0; horiz = lower p1 in
               if \<not> (vert \<in> {''top'', ''center'', ''bottom''} \<or> endswith_percent vert)
               then raise AssertionError
               else if \<not> (horiz \<in> {''left'', ''center'', ''right''} \<or> endswith_percent horiz)
               then raise AssertionError
               else
                 bind (if vert = ''top'' then ret 0
                       else if vert = ''center'' then
                         bind (lift (truediv (screen_height - height) 2))
                           (\<lambda>f. ret (int_of_float f))
                       else if vert = ''bottom'' then ret (screen_height - height)
                       else calc_size (PStr vert) (screen_height - height)) (\<lambda>y_pos.
                 bind (if horiz = ''left'' then ret 0
                       else if horiz = ''center'' then
                         bind (lift (truediv (screen_width - width) 2))
                           (\<lambda>f. ret (int_of_float f))
                       else if horiz = ''right'' then ret (screen_width - width)
                       else calc_size (PStr horiz) (screen_width - width)) (\<lambda>x_pos.
                   ret (x_pos, y_pos)))
           | _ \<Rightarrow> raise AssertionError)
      | _ \<Rightarrow> raise AttributeError)"

section \<open>Window matcher and placer\<close>

text \<open>
  \<^verbatim>\<open>get_window\<close>. The body of the \<^verbatim>\<open>try\<close> block either returns \<^verbatim>\<open>None\<close> from inside
  (\<open>Inl ()\<close>) or falls through with the output of the search (\<open>Inr output\<close>). An
  argument of a command that is not a string makes \<^verbatim>\<open>check_output\<close> raise
  \<^verbatim>\<open>TypeError\<close> before anything is started.
\<close>

definition str_arg :: "pyval \<Rightarrow> frag io" where
  "str_arg v = (case v of PStr s \<Rightarrow> ret (Lit s) | _ \<Rightarrow> raise TypeError)"

definition get_pid :: "env \<Rightarrow> pyval \<Rightarrow> (unit + string option) io" where
  "get_pid env search_process =
     (if truthy search_process then
        bind (str_arg search_process) (\<lambda>arg.
        bind (check_output env [Lit ''pgrep'', Lit ''-f'', arg]) (\<lambda>output.
          case split linesep (strip output) of
            [] \<Rightarrow> raise IndexError
          | [pid] \<Rightarrow> ret (Inr (Some pid))
          | _ \<Rightarrow>
              bind (log [Lit (''Multiple processes found for '' @ [CHR 0x27]),
                         Val search_process, Lit [CHR 0x27]] ''error'')
                (\<lambda>_. ret (Inl ()))))
      else ret (Inr None))"

definition search_command :: "string option \<Rightarrow> pyval \<Rightarrow> (frag list) io" where
  "search_command pid search_name =
     (let command = [Lit ''xdotool'', Lit ''search''];
          command = (case pid of
                       Some p \<Rightarrow> if p \<noteq> [] then command @ [Lit ''--onlyvisible'', Lit ''--pid'', Lit p]
                                 else command
                     | None \<Rightarrow> command)
      in if truthy search_name
         then bind (str_arg search_name) (\<lambda>arg. ret (command @ [Lit ''--name'', arg]))
         else ret command)"

definition get_window :: "env \<Rightarrow> pyval \<Rightarrow> pyval \<Rightarrow> (string option) io" where
  "get_window env search_name search_process =
     bind
       (except_called_process_error
          (bind (get_pid env search_process) (\<lambda>r.
             case r of
               Inl _ \<Rightarrow> ret (Inl ())
             | Inr pid \<Rightarrow>
                 bind (search_command pid search_name) (\<lambda>command.
                 bind (check_output env command) (\<lambda>output. ret (Inr output)))))
          (\<lambda>out. bind (log [Bytes out] ''info'') (\<lambda>_. ret (Inl ()))))
       (\<lambda>r. case r of
           Inl _ \<Rightarrow> ret None
         | Inr output \<Rightarrow>
             let windows = split linesep (strip output) in
             ret (if windows \<noteq> [] \<and> last windows \<noteq> [] then Some (last windows) else None))"

definition set_window_size :: "env \<Rightarrow> string \<Rightarrow> pyval \<Rightarrow> int \<Rightarrow> int \<Rightarrow> string io" where
  "set_window_size env window_id name width height =
     bind (log [Lit ''Setting size '', Val (PInt width), Lit '' x '', Val (PInt height),
                Lit '' for '', Val name, Lit '' window '', Lit window_id] ''info'') (\<lambda>_.
     bind (check_output env
             [Lit ''xdotool'', Lit ''windowsize'', Lit window_id,
              Val (PInt width), Val (PInt height)]) (\<lambda>output.
       ret (strip output)))"

definition set_window_pos :: "env \<Rightarrow> string \<Rightarrow> pyval \<Rightarrow> int \<Rightarrow> int \<Rightarrow> string io" where
  "set_window_pos env window_id name x_pos y_pos =
     bind (log [Lit ''Moving the '', Val name, Lit '' window '', Lit window_id,
                Lit '' to position '', Val (PInt x_pos), Lit '' x '', Val (PInt y_pos)] ''info'') (\<lambda>_.
     bind (check_output env
             [Lit ''xdotool'', Lit ''windowmove'', Lit window_id,
              Val (PInt x_pos), Val (PInt y_pos)]) (\<lambda>output.
       ret (strip output)))"

definition set_window_desktop :: "env \<Rightarrow> string \<Rightarrow> pyval \<Rightarrow> pyval \<Rightarrow> string io" where
  "set_window_desktop env window_id name desktop =
     bind (log [Lit ''Moving '', Val name, Lit '' window '', Lit window_id,
                Lit '' to desktop '', Val desktop] ''info'') (\<lambda>_.
     bind (check_output env
             [Lit ''xdotool'', Lit ''set_desktop_for_window'', Lit window_id, Val desktop]) (\<lambda>output.
       ret (strip output)))"

definition set_desktops :: "env \<Rightarrow> int \<Rightarrow> unit io" where
  "set_desktops env cnt =
     bind (check_output env [Lit ''xdotool'', Lit ''get_num_desktops'']) (\<lambda>output.
     bind (lift (py_int (strip output))) (\<lambda>desktops_count.
       if cnt \<le> desktops_count then
         log [Lit ''There are already '', Val (PInt cnt), Lit '' or more desktops''] ''info''
       else
         bind (check_output env [Lit ''xdotool'', Lit ''set_num_desktops'', Val (PInt cnt)])
           (\<lambda>_. ret ())))"

section \<open>Arrangement orchestrator\<close>

text \<open>
  A window rule is a dictionary from the configuration file. \<^verbatim>\<open>arrange_window\<close> lays
  it over a dictionary of defaults and from then on reads eight keys that are always
  there: the merged dictionary is a record of those eight values.
\<close>

type_synonym rule = "string \<rightharpoonup> pyval"

record config =
  c_name :: pyval
  c_search_name :: pyval
  c_search_process :: pyval
  c_screen :: pyval
  c_desktop :: pyval
  c_width :: pyval
  c_height :: pyval
  c_align :: pyval

definition dict_get :: "rule \<Rightarrow> string \<Rightarrow> pyval \<Rightarrow> pyval" where
  "dict_get d k dflt = (case d k of None \<Rightarrow> dflt | Some v \<Rightarrow> v)"

definition merge_defaults :: "rule \<Rightarrow> config" where
  "merge_defaults window_config =
     \<lparr>c_name = dict_get window_config ''name'' (PStr ''Unknown''),
      c_search_name = dict_get window_config ''search_name'' (PStr []),
      c_search_process = dict_get window_config ''search_process'' (PStr []),
      c_screen = dict_get window_config ''screen'' (PInt 0),
      c_desktop = dict_get window_config ''desktop'' (PInt 2),
      c_width = dict_get window_config ''width'' (PInt 0),
      c_height = dict_get window_config ''height'' (PInt 0),
      c_align = dict_get window_config ''align'' (PStr ''top left'')\<rparr>"

text \<open>\<^verbatim>\<open>xs[i]\<close>: a negative index counts from the end; out of range raises.\<close>

definition subscript :: "'a list \<Rightarrow> int \<Rightarrow> error + 'a" where
  "subscript xs i =
     (if 0 \<le> i \<and> i < int (length xs) then Inr (xs ! nat i)
      else if i < 0 \<and> - int (length xs) \<le> i then Inr (xs ! nat (int (length xs) + i))
      else Inl IndexError)"

text \<open>\<^verbatim>\<open>screen['width']\<close> and the like: a key the parser left unset raises.\<close>

definition item :: "'a option \<Rightarrow> error + 'a" where
  "item v = (case v of None \<Rightarrow> Inl KeyError | Some a \<Rightarrow> Inr a)"

definition arrange_window :: "env \<Rightarrow> rule \<Rightarrow> screen list \<Rightarrow> unit io" where
  "arrange_window env window_config screens =
     (let config = merge_defaults window_config in
      if \<not> (truthy (c_search_name config) \<or> truthy (c_search_process config))
      then raise AssertionError
      else case c_screen config of
        PInt scr \<Rightarrow>
          if int (length screens) \<le> scr then
            log [Lit ''There are only '', Val (PInt (int (length screens))),
                 Lit '' available. Can't set '', Val (c_name config),
                 Lit '' on screen '', Val (PInt scr)] ''error''
          else
            bind (lift (subscript screens scr)) (\<lambda>screen.
            bind (get_window env (c_search_name config) (c_search_process config)) (\<lambda>win_id.
              case win_id of
                None \<Rightarrow> log [Lit ''No window found for '', Val (c_name config)] ''error''
              | Some win_id \<Rightarrow>
                  bind (lift (item (s_width screen))) (\<lambda>screen_width.
                  bind (calc_size (c_width config) screen_width) (\<lambda>width.
                  bind (lift (item (s_height screen))) (\<lambda>screen_height.
                  bind (calc_size (c_height config) screen_height) (\<lambda>height.
                  bind (calc_pos (c_align config) width height screen_width screen_height)
                    (\<lambda>(x_pos, y_pos).
                  bind (lift (item (s_x screen))) (\<lambda>screen_x.
                  bind (lift (item (s_y screen))) (\<lambda>screen_y.
                  bind (set_window_pos env win_id (c_name config)
                          (x_pos + screen_x) (y_pos + screen_y)) (\<lambda>_.
                  bind (set_window_size env win_id (c_name config) width height) (\<lambda>_.
                  bind (set_window_desktop env win_id (c_name config) (c_desktop config)) (\<lambda>_.
                    ret ()))))))))))))
      | _ \<Rightarrow> raise AssertionError)"

text \<open>
  \<^verbatim>\<open>get_config\<close>. Reading and decoding the file is outside the model: \<open>file\<close> is what
  \<^verbatim>\<open>open\<close> and \<^verbatim>\<open>json.load\<close> give, an exception or the decoded document. The document
  is either a list of rules or something that is not a list.
\<close>

datatype document = DocList "rule list" | DocOther

definition get_config :: "string \<Rightarrow> error + document \<Rightarrow> (rule list) io" where
  "get_config conf_path file =
     bind (case file of
             Inl OSError \<Rightarrow>
               (\<lambda>tr. (Inr (DocList []), tr @ [Print ''error'' [Lit ''Unable to open '', Lit conf_path]]))
           | Inl e \<Rightarrow> raise e
           | Inr doc \<Rightarrow> ret doc) (\<lambda>config.
       case config of
         DocOther \<Rightarrow> raise AssertionError
       | DocList rules \<Rightarrow> if 0 < length rules then ret rules else raise AssertionError)"

text \<open>
  \<^verbatim>\<open>max\<close> over the \<^verbatim>\<open>desktop\<close> values: the first element is the candidate, every
  later element replaces it when \<^verbatim>\<open>item > candidate\<close>. Integers compare with integers,
  strings with strings (by code point); any other pair raises \<^verbatim>\<open>TypeError\<close>.
\<close>

fun str_less :: "string \<Rightarrow> string \<Rightarrow> bool" where
  "str_less [] [] = False"
| "str_less [] (b # bs) = True"
| "str_less (a # as) [] = False"
| "str_less (a # as) (b # bs) =
     ((of_char a :: nat) < of_char b \<or> (a = b \<and> str_less as bs))"

fun py_gt :: "pyval \<Rightarrow> pyval \<Rightarrow> error + bool" where
  "py_gt (PInt a) (PInt b) = Inr (b < a)"
| "py_gt (PStr a) (PStr b) = Inr (str_less b a)"
| "py_gt _ _ = Inl TypeError"

fun max_loop :: "pyval \<Rightarrow> pyval list \<Rightarrow> error + pyval" where
  "max_loop m [] = Inr m"
| "max_loop m (v # vs) = bindE (py_gt v m) (\<lambda>b. max_loop (if b then v else m) vs)"

definition py_max :: "pyval list \<Rightarrow> error + pyval" where
  "py_max vs = (case vs of [] \<Rightarrow> Inl ValueError | v # rest \<Rightarrow> max_loop v rest)"

text \<open>\<^verbatim>\<open>max_desktop + 1\<close>: only an integer can be added to 1.\<close>

definition plus_one :: "pyval \<Rightarrow> error + int" where
  "plus_one v = (case v of PInt n \<Rightarrow> Inr (n + 1) | _ \<Rightarrow> Inl TypeError)"

fun arrange_loop :: "env \<Rightarrow> rule list \<Rightarrow> screen list \<Rightarrow> unit io" where
  "arrange_loop env [] screens = ret ()"
| "arrange_loop env (win_conf # rest) screens =
     bind (arrange_window env win_conf screens) (\<lambda>_. arrange_loop env rest screens)"

definition arrange_windows :: "env \<Rightarrow> string \<Rightarrow> error + document \<Rightarrow> unit io" where
  "arrange_windows env conf_path file =
     bind (get_active_screens env) (\<lambda>screens.
     bind (get_config conf_path file) (\<lambda>config.
     bind (lift (py_max (map (\<lambda>c. dict_get c ''desktop'' (PInt 0)) config))) (\<lambda>max_desktop.
     bind (lift (plus_one max_desktop)) (\<lambda>cnt.
     bind (set_desktops env cnt) (\<lambda>_.
       arrange_loop env config screens)))))"

section \<open>Concrete environments\<close>

text \<open>The inputs at which the theorems below are evaluated.\<close>

definition env_no_extent :: env where
  "env_no_extent tr cmd = Inr (''Monitors: 1'' @ linesep @ '' 0: +*DP-2 3440+2560+0  DP-2'')"

definition env_two_monitors :: env where
  "env_two_monitors tr cmd =
     Inr (''Monitors: 2'' @ linesep @ '' 0: +*DP-2 3440/820x1440/346+2560+0  DP-2'' @ linesep
          @ '' 1: +DP-4 2560/345x1600/215+0+0  DP-4'' @ linesep)"

definition env_two_monitors_swapped :: env where
  "env_two_monitors_swapped tr cmd =
     Inr ('' 1: +DP-4 2560/345x1600/215+0+0  DP-4'' @ linesep @ ''Monitors: 2'' @ linesep
          @ '' 0: +*DP-2 3440/820x1440/346+2560+0  DP-2'')"

definition screen_DP2 :: screen where
  "screen_DP2 = \<lparr>s_name = ''DP-2'', s_index = Some 0, s_current = Some True,
     s_x = Some 2560, s_y = Some 0, s_width = Some 3440, s_width_mm = Some 820,
     s_height = Some 1440, s_height_mm = Some 346\<rparr>"

definition screen_DP4 :: screen where
  "screen_DP4 = \<lparr>s_name = ''DP-4'', s_index = Some 1, s_current = Some False,
     s_x = Some 0, s_y = Some 0, s_width = Some 2560, s_width_mm = Some 345,
     s_height = Some 1600, s_height_mm = Some 215\<rparr>"

text \<open>
  An environment with two monitors and one virtual desktop, in which the window search
  finds two windows and every other command succeeds without output; and the same
  environment with a failing \<^verbatim>\<open>xdotool windowmove\<close>.
\<close>

definition env_ok :: env where
  "env_ok tr cmd =
     (if cmd = [Lit ''xrandr'', Lit ''--listactivemonitors''] then env_two_monitors tr cmd
      else if cmd = [Lit ''xdotool'', Lit ''get_num_desktops''] then Inr ''1''
      else if take 2 cmd = [Lit ''xdotool'', Lit ''search''] then Inr (''111'' @ linesep @ ''222'')
      else Inr [])"

definition env_move_fails :: env where
  "env_move_fails tr cmd =
     (if take 2 cmd = [Lit ''xdotool'', Lit ''windowmove''] then Inl (CalledProcessError [])
      else env_ok tr cmd)"

section \<open>Predicates on traces\<close>

text \<open>
  The three commands that place a window, as they appear in a trace, and what it means
  for a computation to leave them alone (\<open>quiet\<close>), to issue a given list of them in
  order until one fails (\<open>placing\<close>), and to do either (\<open>arranged\<close>).
\<close>

definition placement_kind :: "event \<Rightarrow> string option" where
  "placement_kind ev =
     (case ev of
        Call (Lit a # Lit b # rest) \<Rightarrow>
          if a = ''xdotool'' \<and> b \<in> {''windowmove'', ''windowsize'', ''set_desktop_for_window''}
          then Some b else None
      | _ \<Rightarrow> None)"

definition placement_calls :: "event list \<Rightarrow> string list" where
  "placement_calls evs = List.map_filter placement_kind evs"

definition stops_at_failure :: "env \<Rightarrow> event list \<Rightarrow> event list \<Rightarrow> error + unit \<Rightarrow> bool" where
  "stops_at_failure env tr new res =
     (\<forall>pre cmd post e.
         new = pre @ Call cmd # post \<and> placement_kind (Call cmd) \<noteq> None \<and>
         env (tr @ pre) cmd = Inl e \<longrightarrow> post = [] \<and> res = Inl e)"

definition ends_in_failure :: "env \<Rightarrow> event list \<Rightarrow> event list \<Rightarrow> error + unit \<Rightarrow> bool" where
  "ends_in_failure env tr new res =
     (\<exists>pre cmd e.
         new = pre @ [Call cmd] \<and> placement_kind (Call cmd) \<noteq> None \<and>
         env (tr @ pre) cmd = Inl e \<and> res = Inl e)"

definition placed :: "string list \<Rightarrow> env \<Rightarrow> event list \<Rightarrow> event list \<Rightarrow> error + unit \<Rightarrow> bool" where
  "placed ks env tr new res =
     ((\<exists>rest. ks = placement_calls new @ rest) \<and>
      (res = Inr () \<longrightarrow> placement_calls new = ks) \<and>
      stops_at_failure env tr new res \<and>
      (placement_calls new \<noteq> ks \<longrightarrow> ends_in_failure env tr new res))"

definition quiet :: "'a io \<Rightarrow> bool" where
  "quiet m = (\<forall>tr res tr'. m tr = (res, tr') \<longrightarrow> (\<exists>new. tr' = tr @ new \<and> placement_calls new = []))"

definition placing :: "string list \<Rightarrow> env \<Rightarrow> unit io \<Rightarrow> bool" where
  "placing ks env m =
     (\<forall>tr res tr'. m tr = (res, tr') \<longrightarrow> (\<exists>new. tr' = tr @ new \<and> placed ks env tr new res))"

definition arranged :: "env \<Rightarrow> unit io \<Rightarrow> bool" where
  "arranged env m =
     (\<forall>tr res tr'. m tr = (res, tr') \<longrightarrow>
        (\<exists>new. tr' = tr @ new \<and>
           (placement_calls new = [] \<or>
            placed [''windowmove'', ''windowsize'', ''set_desktop_for_window''] env tr new res)))"

section \<open>Properties of the topology parser\<close>

lemma bindE_simps [simp]:
  "bindE (Inl e) f = Inl e"
  "bindE (Inr v) f = f v"
  by (simp_all add: bindE_def)

lemma bindE_Inl_iff: "bindE m f = Inl e \<longleftrightarrow> m = Inl e \<or> (\<exists>v. m = Inr v \<and> f v = Inl e)"
  by (cases m) auto

lemma bindE_Inr_iff: "bindE m f = Inr r \<longleftrightarrow> (\<exists>v. m = Inr v \<and> f v = Inr r)"
  by (cases m) auto

lemma parse_digits_error: "parse_digits acc s = Inl e \<Longrightarrow> e = ValueError"
  by (induction acc s rule: parse_digits.induct) (auto split: if_splits)

lemma parse_unsigned_error: "parse_unsigned s = Inl e \<Longrightarrow> e = ValueError"
  by (auto simp: parse_unsigned_def split: list.splits if_splits dest: parse_digits_error)

lemma py_int_error: "py_int s = Inl e \<Longrightarrow> e = ValueError"
  by (auto simp: py_int_def bindE_Inl_iff split: list.splits if_splits dest: parse_unsigned_error)

lemma int_all_error: "int_all ss = Inl e \<Longrightarrow> e = ValueError"
  by (induction ss arbitrary: e) (auto simp: bindE_Inl_iff dest: py_int_error)

lemma get_px_mm_error: "get_px_mm d = Inl e \<Longrightarrow> e = ValueError"
proof (cases "int_all (split ''/'' d)")
  case (Inl e')
  assume "get_px_mm d = Inl e"
  with Inl show ?thesis by (auto simp: get_px_mm_def dest: int_all_error)
next
  case (Inr ns)
  assume "get_px_mm d = Inl e"
  with Inr show ?thesis by (simp add: get_px_mm_def split: list.splits)
qed

lemma parse_index_error: "parse_index res sd = Inl e \<Longrightarrow> e = ValueError"
  by (auto simp: parse_index_def bindE_Inl_iff split: list.splits dest: py_int_error)

lemma parse_origin_error: "parse_origin res sd = Inl e \<Longrightarrow> e = ValueError"
  by (auto simp: parse_origin_def bindE_Inl_iff split: list.splits dest: py_int_error)

lemma parse_extent_error: "parse_extent res sd = Inl e \<Longrightarrow> e = ValueError"
  by (auto simp: parse_extent_def bindE_Inl_iff split: list.splits dest: get_px_mm_error)

lemma get_screen_data_error: "get_screen_data line = Inl e \<Longrightarrow> e = ValueError"
  by (auto simp: get_screen_data_def bindE_Inl_iff split: list.splits
      dest: parse_index_error parse_origin_error parse_extent_error)

lemma get_screen_data_None:
  "get_screen_data line = Inr None \<longleftrightarrow> length (split ''  '' (strip line)) \<noteq> 2"
  by (auto simp: get_screen_data_def bindE_Inr_iff split: list.splits)

lemma monitors_loop_Inr:
  "monitors_loop ms res = Inr r \<Longrightarrow>
     r = res @ parsed_records ms \<and> (\<forall>m \<in> set ms. \<not> isl (get_screen_data m))"
proof (induction ms arbitrary: res)
  case Nil
  then show ?case by (simp add: parsed_records_def)
next
  case (Cons m ms)
  from Cons.prems obtain v where v: "get_screen_data m = Inr v"
    by (auto simp: bindE_Inr_iff)
  show ?case
  proof (cases v)
    case None
    with v Cons.prems have "monitors_loop ms res = Inr r" by simp
    from Cons.IH[OF this] v None show ?thesis by (simp add: parsed_records_def)
  next
    case (Some s)
    with v Cons.prems have "monitors_loop ms (res @ [s]) = Inr r" by simp
    from Cons.IH[OF this] v Some show ?thesis by (simp add: parsed_records_def)
  qed
qed

lemma monitors_loop_total:
  "\<forall>m \<in> set ms. \<not> isl (get_screen_data m) \<Longrightarrow>
     monitors_loop ms res = Inr (res @ parsed_records ms)"
proof (induction ms arbitrary: res)
  case Nil
  then show ?case by (simp add: parsed_records_def)
next
  case (Cons m ms)
  then obtain r where r: "get_screen_data m = Inr r"
    by (cases "get_screen_data m") auto
  with Cons show ?case
    by (cases r) (simp_all add: parsed_records_def)
qed

lemma monitors_loop_error:
  "m \<in> set ms \<Longrightarrow> isl (get_screen_data m) \<Longrightarrow> isl (monitors_loop ms res)"
  using monitors_loop_Inr[of ms res] by (cases "monitors_loop ms res") auto

lemma screens_of_output_Inr:
  "screens_of_output out = Inr ss \<longleftrightarrow>
     (\<forall>m \<in> set (monitor_lines out). \<not> isl (get_screen_data m)) \<and>
     ss = sort_key x_key (parsed_records (monitor_lines out))"
  unfolding screens_of_output_def bindE_Inr_iff
  using monitors_loop_Inr[of "monitor_lines out" "[]"] monitors_loop_total[of "monitor_lines out" "[]"]
  by auto

lemma parsed_records_mset:
  "mset ls' = mset ls \<Longrightarrow> mset (parsed_records ls') = mset (parsed_records ls)"
proof -
  assume a: "mset ls' = mset ls"
  let ?f = "\<lambda>l. case get_screen_data l of Inl e \<Rightarrow> None | Inr r \<Rightarrow> r"
  have "\<And>xs. mset (List.map_filter ?f xs) = image_mset (the \<circ> ?f) (filter_mset (\<lambda>x. ?f x \<noteq> None) (mset xs))"
    by (simp add: List.map_filter_def)
  then show ?thesis using a by (simp add: parsed_records_def)
qed

lemma map_filter_x_sorted:
  "sorted (map x_key ss) \<Longrightarrow> sorted (List.map_filter s_x ss)"
proof -
  assume s: "sorted (map x_key ss)"
  have "List.map_filter s_x ss = map x_key (filter (\<lambda>s. s_x s \<noteq> None) ss)"
    by (induction ss) (auto simp: List.map_filter_def x_key_def)
  then show ?thesis using s by (simp add: sorted_filter)
qed


lemma get_active_screens_Inr:
  "get_active_screens env tr = (Inr ss, tr') \<longleftrightarrow>
     (\<exists>out. env tr [Lit ''xrandr'', Lit ''--listactivemonitors''] = Inr out \<and>
            screens_of_output out = Inr ss \<and>
            tr' = tr @ [Call [Lit ''xrandr'', Lit ''--listactivemonitors'']])"
  by (cases "env tr [Lit ''xrandr'', Lit ''--listactivemonitors'']")
     (auto simp: get_active_screens_def bind_def check_output_def lift_def)

text \<open>
  Claim C8 says the per-line parser never surfaces an exception. A monitor line whose
  size block has no millimetre part makes the tuple unpacking fail: the parser raises.
\<close>
theorem get_screen_data_raises_on_missing_mm:
  "get_screen_data ''0: +*DP-2 3440x1440+2560+0  DP-2'' = Inl ValueError"
  by code_simp

text \<open>
  Claim C8, as the code has it: \<^verbatim>\<open>get_screen_data\<close> returns \<^verbatim>\<open>None\<close> exactly for the
  lines that do not split into two parts on the double space; on any other line it
  returns a record (complete or partial) or raises, and \<^verbatim>\<open>ValueError\<close> is the only
  exception it raises. Nothing catches it: a line that raises makes the collection of
  the screens raise.
\<close>
theorem get_screen_data_outcomes:
  "(get_screen_data line = Inr None \<longleftrightarrow> length (split ''  '' (strip line)) \<noteq> 2) \<and>
   (\<forall>e. get_screen_data line = Inl e \<longrightarrow> e = ValueError) \<and>
   (\<forall>out. line \<in> set (monitor_lines out) \<and> isl (get_screen_data line)
          \<longrightarrow> isl (screens_of_output out))"
proof (intro conjI allI impI)
  show "get_screen_data line = Inr None \<longleftrightarrow> length (split ''  '' (strip line)) \<noteq> 2"
    by (rule get_screen_data_None)
next
  fix e assume "get_screen_data line = Inl e"
  then show "e = ValueError" by (rule get_screen_data_error)
next
  fix out assume a: "line \<in> set (monitor_lines out) \<and> isl (get_screen_data line)"
  then have "isl (monitors_loop (monitor_lines out) [])"
    using monitors_loop_error by blast
  then show "isl (screens_of_output out)"
    by (cases "monitors_loop (monitor_lines out) []") (simp_all add: screens_of_output_def)
qed

theorem get_screen_data_outcomes_witness:
  "get_screen_data ''Monitors: 2'' = Inr None \<and>
   length (split ''  '' (strip ''Monitors: 2'')) \<noteq> 2 \<and>
   get_screen_data ''1x2  n'' = Inl ValueError \<and>
   ''1x2  n'' \<in> set (monitor_lines ''1x2  n'') \<and>
   isl (screens_of_output ''1x2  n'')"
proof -
  have a: "length (split ''  '' (strip ''Monitors: 2'')) \<noteq> 2" by code_simp
  have b: "get_screen_data ''1x2  n'' = Inl ValueError" by code_simp
  have c: "''1x2  n'' \<in> set (monitor_lines ''1x2  n'')" by code_simp
  from get_screen_data_outcomes[of "''Monitors: 2''"] a
  have d: "get_screen_data ''Monitors: 2'' = Inr None" by blast
  from get_screen_data_outcomes[of "''1x2  n''"] b c
  have e: "isl (screens_of_output ''1x2  n'')" by (metis sum.disc(1))
  from a b c d e show ?thesis by blast
qed

text \<open>
  Claim C3 says every record of the active screen list has a positive width and height.
  A monitor line without the size block parses to a record with neither, and that record
  is in the list \<^verbatim>\<open>get_active_screens\<close> returns.
\<close>
theorem record_without_extent_enters_screen_list:
  "get_active_screens env_no_extent [] =
     (Inr [\<lparr>s_name = ''DP-2'', s_index = Some 0, s_current = Some True,
            s_x = Some 2560, s_y = Some 0, s_width = None, s_width_mm = None,
            s_height = None, s_height_mm = None\<rparr>],
      [Call [Lit ''xrandr'', Lit ''--listactivemonitors'']])"
  by code_simp

text \<open>
  Claim C3, as the code has it: the active screen list holds exactly the records
  \<^verbatim>\<open>get_screen_data\<close> returns for the lines of the topology output, each as often as it
  is returned; the only results left out are \<^verbatim>\<open>None\<close>. Width and height are not looked
  at, so a record without them enters the list.
\<close>
theorem active_screens_are_the_parsed_records:
  assumes "get_active_screens env tr = (Inr ss, tr')"
  shows "\<exists>out. env tr [Lit ''xrandr'', Lit ''--listactivemonitors''] = Inr out \<and>
           mset ss = mset (parsed_records (monitor_lines out)) \<and>
           (\<forall>l \<in> set (monitor_lines out). \<forall>s. get_screen_data l = Inr (Some s) \<longrightarrow> s \<in> set ss)"
proof -
  from assms obtain out where
    out: "env tr [Lit ''xrandr'', Lit ''--listactivemonitors''] = Inr out"
    and ss: "screens_of_output out = Inr ss"
    by (auto simp: get_active_screens_Inr)
  from ss have eq: "ss = sort_key x_key (parsed_records (monitor_lines out))"
    by (simp add: screens_of_output_Inr)
  have m: "mset ss = mset (parsed_records (monitor_lines out))"
    by (simp add: eq)
  have "\<forall>l \<in> set (monitor_lines out). \<forall>s. get_screen_data l = Inr (Some s) \<longrightarrow> s \<in> set ss"
  proof (intro ballI allI impI)
    fix l s assume "l \<in> set (monitor_lines out)" "get_screen_data l = Inr (Some s)"
    then have "s \<in> set (parsed_records (monitor_lines out))"
      by (force simp: parsed_records_def List.map_filter_def)
    then show "s \<in> set ss" by (simp add: eq)
  qed
  with out m show ?thesis by blast
qed

theorem active_screens_are_the_parsed_records_witness:
  "get_active_screens env_two_monitors [] =
     (Inr [screen_DP4, screen_DP2], [Call [Lit ''xrandr'', Lit ''--listactivemonitors'']]) \<and>
   mset [screen_DP4, screen_DP2] =
     mset (parsed_records (monitor_lines
            (''Monitors: 2'' @ linesep @ '' 0: +*DP-2 3440/820x1440/346+2560+0  DP-2'' @ linesep
             @ '' 1: +DP-4 2560/345x1600/215+0+0  DP-4'' @ linesep)))"
proof -
  have h: "get_active_screens env_two_monitors [] =
     (Inr [screen_DP4, screen_DP2], [Call [Lit ''xrandr'', Lit ''--listactivemonitors'']])"
    by code_simp
  from active_screens_are_the_parsed_records[OF h] h show ?thesis
    by (simp add: env_two_monitors_def)
qed

text \<open>
  Claim C9: the list \<^verbatim>\<open>get_active_screens\<close> returns is non-decreasing in \<^verbatim>\<open>x\<close> (the
  sort key takes 0 for a record without \<^verbatim>\<open>x\<close>; the \<^verbatim>\<open>x\<close> values that are present are
  non-decreasing as well); records with equal keys keep the order of the report; and
  any permutation of the same lines is collected too, into a sorted list of the same
  records.
\<close>
theorem screens_sorted_by_x:
  assumes "get_active_screens env tr = (Inr ss, tr')"
  shows "sorted (map x_key ss) \<and> sorted (List.map_filter s_x ss) \<and>
    (\<exists>out. env tr [Lit ''xrandr'', Lit ''--listactivemonitors''] = Inr out \<and>
       (\<forall>k. filter (\<lambda>s. x_key s = k) ss
             = filter (\<lambda>s. x_key s = k) (parsed_records (monitor_lines out))) \<and>
       (\<forall>env2 tr2 out2.
           env2 tr2 [Lit ''xrandr'', Lit ''--listactivemonitors''] = Inr out2 \<and>
           mset (monitor_lines out2) = mset (monitor_lines out) \<longrightarrow>
           (\<exists>ss2 tr2'. get_active_screens env2 tr2 = (Inr ss2, tr2') \<and>
                        sorted (map x_key ss2) \<and> mset ss2 = mset ss)))"
proof -
  from assms obtain out where
    out: "env tr [Lit ''xrandr'', Lit ''--listactivemonitors''] = Inr out"
    and ss: "screens_of_output out = Inr ss"
    by (auto simp: get_active_screens_Inr)
  from ss have ok: "\<forall>m \<in> set (monitor_lines out). \<not> isl (get_screen_data m)"
    and eq: "ss = sort_key x_key (parsed_records (monitor_lines out))"
    by (simp_all add: screens_of_output_Inr)
  have s1: "sorted (map x_key ss)" by (simp add: eq)
  have s2: "sorted (List.map_filter s_x ss)" using s1 by (rule map_filter_x_sorted)
  have st: "\<forall>k. filter (\<lambda>s. x_key s = k) ss
             = filter (\<lambda>s. x_key s = k) (parsed_records (monitor_lines out))"
    by (simp add: eq sort_key_stable)
  have perm: "\<forall>env2 tr2 out2.
           env2 tr2 [Lit ''xrandr'', Lit ''--listactivemonitors''] = Inr out2 \<and>
           mset (monitor_lines out2) = mset (monitor_lines out) \<longrightarrow>
           (\<exists>ss2 tr2'. get_active_screens env2 tr2 = (Inr ss2, tr2') \<and>
                        sorted (map x_key ss2) \<and> mset ss2 = mset ss)"
  proof (intro allI impI)
    fix env2 :: env and tr2 out2
    assume a: "env2 tr2 [Lit ''xrandr'', Lit ''--listactivemonitors''] = Inr out2 \<and>
           mset (monitor_lines out2) = mset (monitor_lines out)"
    then have "set (monitor_lines out2) = set (monitor_lines out)" by (metis set_mset_mset)
    with ok have ok2: "\<forall>m \<in> set (monitor_lines out2). \<not> isl (get_screen_data m)" by simp
    let ?ss2 = "sort_key x_key (parsed_records (monitor_lines out2))"
    from ok2 have "screens_of_output out2 = Inr ?ss2" by (simp add: screens_of_output_Inr)
    with a have "get_active_screens env2 tr2
        = (Inr ?ss2, tr2 @ [Call [Lit ''xrandr'', Lit ''--listactivemonitors'']])"
      by (simp add: get_active_screens_Inr)
    moreover have "sorted (map x_key ?ss2)" by simp
    moreover have "mset ?ss2 = mset ss"
    proof -
      from a have "mset (parsed_records (monitor_lines out2)) = mset (parsed_records (monitor_lines out))"
        by (intro parsed_records_mset) blast
      then show ?thesis unfolding eq by simp
    qed
    ultimately show "\<exists>ss2 tr2'. get_active_screens env2 tr2 = (Inr ss2, tr2') \<and>
                        sorted (map x_key ss2) \<and> mset ss2 = mset ss" by blast
  qed
  from s1 s2 out st perm show ?thesis by blast
qed

theorem screens_sorted_by_x_witness:
  "get_active_screens env_two_monitors [] =
     (Inr [screen_DP4, screen_DP2], [Call [Lit ''xrandr'', Lit ''--listactivemonitors'']]) \<and>
   get_active_screens env_two_monitors_swapped [] =
     (Inr [screen_DP4, screen_DP2], [Call [Lit ''xrandr'', Lit ''--listactivemonitors'']]) \<and>
   sorted (map x_key [screen_DP4, screen_DP2]) \<and>
   sorted (List.map_filter s_x [screen_DP4, screen_DP2])"
proof -
  have h: "get_active_screens env_two_monitors [] =
     (Inr [screen_DP4, screen_DP2], [Call [Lit ''xrandr'', Lit ''--listactivemonitors'']])"
    by code_simp
  have h2: "get_active_screens env_two_monitors_swapped [] =
     (Inr [screen_DP4, screen_DP2], [Call [Lit ''xrandr'', Lit ''--listactivemonitors'']])"
    by code_simp
  from screens_sorted_by_x[OF h] h h2 show ?thesis by blast
qed

section \<open>Properties of the floating-point division\<close>

declare bit_length.simps [simp del]

lemma bit_length_nonpos: "n \<le> 0 \<Longrightarrow> bit_length n = 0"
  by (subst bit_length.simps) simp

lemma bit_length_step: "0 < n \<Longrightarrow> bit_length n = 1 + bit_length (n div 2)"
  by (subst bit_length.simps) simp

lemma bit_length_nonneg: "0 \<le> bit_length n"
  by (induction n rule: bit_length.induct) (subst bit_length.simps, simp)

lemma bit_length_bounds:
  "0 < n \<Longrightarrow> 2 ^ nat (bit_length n - 1) \<le> n \<and> n < 2 ^ nat (bit_length n)"
proof (induction n rule: bit_length.induct)
  case (1 n)
  show ?case
  proof (cases "n div 2 = 0")
    case True
    with "1.prems" have n1: "n = 1" by presburger
    have "bit_length 1 = 1" by (simp add: bit_length_step bit_length_nonpos)
    with n1 show ?thesis by simp
  next
    case False
    with "1.prems" have h: "0 < n div 2" by presburger
    from "1.prems" have "\<not> n \<le> 0" by simp
    from "1.IH"[OF this h]
    have ih: "2 ^ nat (bit_length (n div 2) - 1) \<le> n div 2" "n div 2 < 2 ^ nat (bit_length (n div 2))"
      by simp_all
    have bl: "bit_length n = 1 + bit_length (n div 2)" using "1.prems" by (rule bit_length_step)
    have nn: "0 \<le> bit_length (n div 2)" by (rule bit_length_nonneg)
    have p: "(2::int) ^ nat (1 + bit_length (n div 2)) = 2 * 2 ^ nat (bit_length (n div 2))"
      using nn by (simp add: nat_add_distrib)
    have "1 \<le> bit_length (n div 2)"
      using bit_length_step[OF h] bit_length_nonneg[of "n div 2 div 2"] by simp
    then have "(2::int) ^ nat (bit_length (n div 2)) = 2 * 2 ^ nat (bit_length (n div 2) - 1)"
      by (metis Suc_nat_eq_nat_zadd1 add.commute diff_add_cancel diff_ge_0_iff_ge power_Suc)
    with ih have "2 ^ nat (bit_length (n div 2)) \<le> n"
      using h by linarith
    moreover from ih have "n < 2 * 2 ^ nat (bit_length (n div 2))" by linarith
    ultimately show ?thesis using bl p by simp
  qed
qed


lemma exponent_lower:
  assumes "0 < a" "0 < b" "0 \<le> quotient_exponent a b"
  shows "b * 2 ^ nat (quotient_exponent a b) \<le> a"
proof (cases "b * pow2 (bit_length a - bit_length b) \<le> a * pow2 (- (bit_length a - bit_length b))")
  case True
  then have e: "quotient_exponent a b = bit_length a - bit_length b"
    by (simp add: quotient_exponent_def)
  with assms(3) have "pow2 (- (bit_length a - bit_length b)) = 1" by (simp add: pow2_def)
  with True e show ?thesis by (simp add: pow2_def)
next
  case False
  then have e: "quotient_exponent a b = bit_length a - bit_length b - 1"
    by (simp add: quotient_exponent_def)
  with assms(3) have dl: "1 \<le> bit_length a - bit_length b" by simp
  have bb: "b < 2 ^ nat (bit_length b)" using bit_length_bounds[OF assms(2)] by simp
  have ba: "2 ^ nat (bit_length a - 1) \<le> a" using bit_length_bounds[OF assms(1)] by simp
  have nb: "0 \<le> bit_length b" by (rule bit_length_nonneg)
  have "b * 2 ^ nat (bit_length a - bit_length b - 1)
          \<le> 2 ^ nat (bit_length b) * 2 ^ nat (bit_length a - bit_length b - 1)"
    using bb by (simp add: mult_right_mono)
  also have "\<dots> = 2 ^ (nat (bit_length b) + nat (bit_length a - bit_length b - 1))"
    by (simp add: power_add)
  also have "nat (bit_length b) + nat (bit_length a - bit_length b - 1) = nat (bit_length a - 1)"
    using nb dl by linarith
  finally have "b * 2 ^ nat (bit_length a - bit_length b - 1) \<le> a" using ba by linarith
  with e show ?thesis by simp
qed

lemma truediv_small:
  assumes "0 < a" "0 < b" "a < b * 2 ^ 53"
  shows "\<exists>k. truediv a b = Inr (Dbl (round_half_even (a * 2 ^ k) b) (- int k))
             \<and> (k = 0 \<longrightarrow> b * 2 ^ 52 \<le> a)"
proof -
  let ?e = "quotient_exponent a b"
  let ?s = "max (?e - 52) (- 1074)"
  let ?m = "round_half_even (a * pow2 (- ?s)) (b * pow2 ?s)"
  have e52: "?e \<le> 52"
  proof (rule ccontr)
    assume "\<not> ?e \<le> 52"
    then have ge: "53 \<le> ?e" by linarith
    then have "0 \<le> ?e" by linarith
    from exponent_lower[OF assms(1,2) this] have le: "b * 2 ^ nat ?e \<le> a" .
    from ge have "53 \<le> nat ?e" by linarith
    then have "(2::int) ^ 53 \<le> 2 ^ nat ?e" by (intro power_increasing) simp_all
    then have "b * 2 ^ 53 \<le> b * 2 ^ nat ?e" using assms(2) by (simp add: mult_left_mono)
    with le assms(3) show False by linarith
  qed
  then have s0: "\<not> 0 < ?s" by linarith
  have ab: "b \<noteq> 0" "a \<noteq> 0" "\<bar>a\<bar> = a" "\<bar>b\<bar> = b" "sgn a = 1" "sgn b = 1"
    using assms(1,2) by simp_all
  have unfold: "truediv a b = Inr (Dbl ?m ?s)"
    unfolding truediv_def Let_def
    by (simp only: ab s0 if_False simp_thms mult_1)
  have p1: "pow2 ?s = 1" using s0 by (simp add: pow2_def)
  have p2: "pow2 (- ?s) = 2 ^ nat (- ?s)" by (simp add: pow2_def)
  have sk: "- int (nat (- ?s)) = ?s" using s0 by linarith
  have z: "nat (- ?s) = 0 \<longrightarrow> b * 2 ^ 52 \<le> a"
  proof
    assume "nat (- ?s) = 0"
    with s0 have "?s = 0" by linarith
    then have e: "?e = 52" by linarith
    then have "0 \<le> ?e" by linarith
    from exponent_lower[OF assms(1,2) this] e show "b * 2 ^ 52 \<le> a" by simp
  qed
  have m: "?m = round_half_even (a * 2 ^ nat (- ?s)) b"
    by (simp only: p1 p2 mult_1_right)
  have "truediv a b = Inr (Dbl (round_half_even (a * 2 ^ nat (- ?s)) b) (- int (nat (- ?s))))"
    by (simp only: sk unfold m)
  with z show ?thesis by (intro exI[of _ "nat (- ?s)"] conjI)
qed

lemma round_half_even_le:
  assumes "0 < d" "n \<le> N * d"
  shows "round_half_even n d \<le> N"
proof -
  have "n div d \<le> N * d div d" using assms by (intro zdiv_mono1)
  then have q: "n div d \<le> N" using assms(1) by simp
  have n: "n = n div d * d + n mod d" by simp
  have r: "0 < n mod d \<Longrightarrow> n div d < N"
  proof -
    assume "0 < n mod d"
    with n assms(2) have "n div d * d < N * d" by linarith
    then show ?thesis using assms(1) by (simp add: mult_less_cancel_right_pos)
  qed
  show ?thesis
  proof (cases "2 * (n mod d) < d")
    case True
    with q show ?thesis by (simp add: round_half_even_def Let_def)
  next
    case False
    with assms(1) have "0 < n mod d" by linarith
    from r[OF this] have "n div d + 1 \<le> N" by simp
    with q False show ?thesis by (simp add: round_half_even_def Let_def)
  qed
qed

lemma round_half_even_nonneg:
  assumes "0 \<le> n" "0 < d"
  shows "0 \<le> round_half_even n d"
proof -
  have "0 \<le> n div d" using assms by (simp add: pos_imp_zdiv_nonneg_iff)
  then show ?thesis by (simp add: round_half_even_def Let_def)
qed

lemma round_half_even_exact: "0 < d \<Longrightarrow> round_half_even (q * d) d = q"
  by (simp add: round_half_even_def Let_def)

lemma int_of_float_scaled: "0 \<le> m \<Longrightarrow> int_of_float (Dbl m (- int k)) = m div 2 ^ k"
  by (cases "k = 0") (auto simp: pow2_def sgn_if)


lemma truediv_zero: "b \<noteq> 0 \<Longrightarrow> truediv 0 b = Inr (Dbl 0 0)"
  by (simp add: truediv_def)

lemma truediv_full_scale: "truediv (2 ^ 53 * 100) 100 = Inr (Dbl (2 ^ 52) 1)"
  by code_simp

lemma percent_bound:
  assumes "0 \<le> T" "T \<le> 2 ^ 53" "0 < p" "p \<le> 100"
  shows "\<exists>f. truediv (T * p) 100 = Inr f \<and> 0 \<le> int_of_float f \<and> int_of_float f \<le> T"
proof -
  consider "T = 0" | "0 < T" "T * p < 100 * 2 ^ 53" | "0 < T" "100 * 2 ^ 53 \<le> T * p"
    using assms(1) by linarith
  then show ?thesis
  proof cases
    case 1
    then show ?thesis by (simp add: truediv_zero pow2_def)
  next
    case 2
    from 2(1) assms(3) have pos: "0 < T * p" by simp
    from truediv_small[OF pos _ 2(2)] obtain k where
      k: "truediv (T * p) 100 = Inr (Dbl (round_half_even (T * p * 2 ^ k) 100) (- int k))"
      by auto
    let ?m = "round_half_even (T * p * 2 ^ k) 100"
    have m0: "0 \<le> ?m" using pos by (intro round_half_even_nonneg) simp_all
    have "T * 2 ^ k * p \<le> T * 2 ^ k * 100"
      using assms(1,4) by (intro mult_left_mono) simp_all
    then have "T * p * 2 ^ k \<le> T * 2 ^ k * 100" by (simp add: mult.assoc mult.left_commute mult.commute)
    then have "?m \<le> T * 2 ^ k" by (intro round_half_even_le) simp_all
    then have "?m div 2 ^ k \<le> T * 2 ^ k div 2 ^ k" by (intro zdiv_mono1) simp_all
    then have up: "?m div 2 ^ k \<le> T" by simp
    have lo: "0 \<le> ?m div 2 ^ k" using m0 by (simp add: pos_imp_zdiv_nonneg_iff)
    from k up lo m0 show ?thesis by (simp add: int_of_float_scaled del: int_of_float.simps)
  next
    case 3
    have "T = 2 ^ 53 \<and> p = 100"
    proof (rule ccontr)
      assume "\<not> (T = 2 ^ 53 \<and> p = 100)"
      then consider "T \<le> 2 ^ 53 - 1" | "p \<le> 99" using assms(2,4) by linarith
      then show False
      proof cases
        case 1
        then have "T * p \<le> (2 ^ 53 - 1) * p" using assms(3) by (intro mult_right_mono) simp_all
        also have "\<dots> \<le> (2 ^ 53 - 1) * 100" using assms(4) by (intro mult_left_mono) simp_all
        finally show False using 3(2) by simp
      next
        case 2
        then have "T * p \<le> T * 99" using assms(1) by (intro mult_left_mono) simp_all
        also have "\<dots> \<le> 2 ^ 53 * 99" using assms(2) by (intro mult_right_mono) simp_all
        finally show False using 3(2) by simp
      qed
    qed
    then show ?thesis using truediv_full_scale by (simp add: pow2_def)
  qed
qed

lemma half_exact:
  assumes "0 \<le> a" "a \<le> 2 ^ 53"
  shows "\<exists>f. truediv a 2 = Inr f \<and> int_of_float f = a div 2"
proof (cases "a = 0")
  case True
  then show ?thesis by (simp add: truediv_zero pow2_def)
next
  case False
  with assms(1) have pos: "0 < a" by simp
  have "a < 2 * 2 ^ 53" using assms(2) by simp
  from truediv_small[OF pos _ this] obtain k where
    k: "truediv a 2 = Inr (Dbl (round_half_even (a * 2 ^ k) 2) (- int k))"
    and k0: "k = 0 \<longrightarrow> 2 * 2 ^ 52 \<le> a"
    by auto
  show ?thesis
  proof (cases k)
    case 0
    with k0 assms(2) have a: "a = 2 ^ 53" by simp
    have "round_half_even (2 ^ 53) 2 = 2 ^ 52" by (simp add: round_half_even_def)
    with k 0 a show ?thesis by (simp add: pow2_def)
  next
    case (Suc j)
    have "a * 2 ^ k = (a * 2 ^ j) * 2" using Suc by simp
    then have m: "round_half_even (a * 2 ^ k) 2 = a * 2 ^ j"
      by (simp only: round_half_even_exact[of 2 "a * 2 ^ j", simplified])
    have "(a * 2 ^ j) div (2 * 2 ^ j) = a div 2" by simp
    then have "(a * 2 ^ j) div 2 ^ k = a div 2" using Suc by (simp add: mult.commute)
    moreover have "0 \<le> a * 2 ^ j" using pos by simp
    ultimately show ?thesis using k m by (simp add: int_of_float_scaled del: int_of_float.simps)
  qed
qed

lemma percent_overshoot:
  "truediv ((2 ^ 53 + 3) * 100) 100 = Inr (Dbl (2 ^ 52 + 2) 1)"
  by code_simp

section \<open>Properties of the geometry resolver\<close>

lemma io_simps [simp]:
  "ret v tr = (Inr v, tr)"
  "raise e tr = (Inl e, tr)"
  "lift r tr = (r, tr)"
  "log msg level tr = (Inr (), tr @ [Print level msg])"
  "check_output env cmd tr = (env tr cmd, tr @ [Call cmd])"
  by (simp_all add: ret_def raise_def lift_def log_def check_output_def)

lemma bind_Inr [simp]: "m tr = (Inr v, tr1) \<Longrightarrow> bind m f tr = f v tr1"
  by (simp add: bind_def)

lemma bind_Inl [simp]: "m tr = (Inl e, tr1) \<Longrightarrow> bind m f tr = (Inl e, tr1)"
  by (simp add: bind_def)

lemma strip_last: "strip s \<noteq> [] \<Longrightarrow> \<not> isspace (last (strip s))"
proof -
  assume a: "strip s \<noteq> []"
  let ?d = "dropWhile isspace (rev (dropWhile isspace s))"
  from a have ne: "?d \<noteq> []" by (simp add: strip_def strip_chars_def)
  then have "\<not> isspace (hd ?d)" by (rule hd_dropWhile)
  moreover have "last (strip s) = hd ?d"
    using ne by (simp add: strip_def strip_chars_def last_rev)
  ultimately show ?thesis by simp
qed

lemma before_final_newline_strip: "before_final_newline (strip s) = strip s"
proof (cases "strip s = []")
  case True
  then show ?thesis by (simp add: before_final_newline_def)
next
  case False
  from strip_last[OF this] have "last (strip s) \<noteq> CHR 0x0A"
    by (auto simp: isspace_def)
  then show ?thesis by (simp add: before_final_newline_def)
qed

lemma strip_chars_id:
  "s \<noteq> [] \<Longrightarrow> \<not> p (hd s) \<Longrightarrow> \<not> p (last s) \<Longrightarrow> strip_chars p s = s"
proof -
  assume a: "s \<noteq> []" "\<not> p (hd s)" "\<not> p (last s)"
  then have 1: "dropWhile p s = s" by (cases s) simp_all
  from a have "rev s \<noteq> []" "\<not> p (hd (rev s))" by (simp_all add: hd_rev)
  then have "dropWhile p (rev s) = rev s" by (cases "rev s") simp_all
  with 1 show ?thesis by (simp add: strip_chars_def)
qed

lemma digit_facts:
  assumes "is_digit c"
  shows "\<not> int_space c" "c \<noteq> CHR ''-''" "c \<noteq> CHR ''+''" "c \<noteq> CHR ''%''" "0 \<le> digit_val c"
  using assms by (auto simp: is_digit_def int_space_def digit_val_def)

lemma parse_digits_ok:
  "list_all is_digit s \<Longrightarrow> 0 \<le> acc \<Longrightarrow> \<exists>n. parse_digits acc s = Inr n \<and> 0 \<le> n"
proof (induction acc s rule: parse_digits.induct)
  case (1 acc)
  then show ?case by simp
next
  case (2 acc c)
  then show ?case by (simp add: digit_facts)
next
  case (3 acc c d ds)
  from "3.prems" have c: "is_digit c" and rest: "list_all is_digit (d # ds)" by simp_all
  from c "3.prems"(2) have "0 \<le> acc * 10 + digit_val c" by (simp add: digit_facts)
  from "3.IH"(1)[OF c rest this] c show ?case by simp
qed

lemma py_int_digits:
  assumes "s \<noteq> []" "list_all is_digit s" "length s \<le> 4"
  shows "\<exists>n. py_int s = Inr n \<and> 0 \<le> n"
proof -
  from assms obtain c cs where s: "s = c # cs" by (cases s) auto
  with assms(2) have c: "is_digit c" and cs: "list_all is_digit cs" by simp_all
  from assms have "is_digit (hd s)" "is_digit (last s)"
    by (simp_all add: s list_all_iff)
  then have "strip_chars int_space s = s"
    using assms(1) by (intro strip_chars_id) (simp_all add: digit_facts)
  moreover from parse_digits_ok[OF cs digit_facts(5)[OF c]]
  obtain n where "parse_digits (digit_val c) cs = Inr n" "0 \<le> n" by auto
  moreover have "length (filter is_digit s) \<le> length s" by (rule length_filter_le)
  with assms(3) have "\<not> 4300 < length (filter is_digit s)" by linarith
  ultimately show ?thesis
    using c s by (simp add: py_int_def parse_unsigned_def digit_facts)
qed

lemma percentage_digits:
  assumes "match_percentage (strip s)"
  shows "\<exists>n. py_int (filter (\<lambda>c. c \<noteq> CHR ''%'') (strip s)) = Inr n \<and> 0 \<le> n"
proof -
  let ?t = "strip s"
  from assms have ne: "?t \<noteq> []" and l: "last ?t = CHR ''%''"
    and d: "butlast ?t \<noteq> []" "list_all is_digit (butlast ?t)" "length (butlast ?t) \<le> 4"
    by (simp_all add: match_percentage_def before_final_newline_strip digits_upto_def Let_def)
  from ne have "?t = butlast ?t @ [last ?t]" by simp
  then have "filter (\<lambda>c. c \<noteq> CHR ''%'') ?t
        = filter (\<lambda>c. c \<noteq> CHR ''%'') (butlast ?t) @ filter (\<lambda>c. c \<noteq> CHR ''%'') [last ?t]"
    by (metis filter_append)
  also have "filter (\<lambda>c. c \<noteq> CHR ''%'') (butlast ?t) = butlast ?t"
    using d(2) by (auto simp: list_all_iff digit_facts intro!: filter_True)
  finally have "filter (\<lambda>c. c \<noteq> CHR ''%'') ?t = butlast ?t" using l by simp
  with py_int_digits[OF d] show ?thesis by simp
qed

lemma calc_size_result:
  assumes "source \<noteq> PNone" "0 \<le> T"
    and "\<forall>s. source = PStr s \<and> match_percentage (strip s) \<longrightarrow> T \<le> 2 ^ 53"
  shows "\<exists>r tr'. calc_size source T tr = (Inr r, tr') \<and> 0 \<le> r \<and> r \<le> T"
proof (cases source)
  case PNone
  with assms(1) show ?thesis by simp
next
  case (PInt n)
  with assms(2) show ?thesis by (simp add: calc_size_def)
next
  case (PStr s)
  consider "match_integer (strip s)"
    | "\<not> match_integer (strip s)" "match_percentage (strip s)"
    | "\<not> match_integer (strip s)" "\<not> match_percentage (strip s)"
    by blast
  then show ?thesis
  proof cases
    case 1
    then have "strip s \<noteq> []" "list_all is_digit (strip s)" "length (strip s) \<le> 4"
      by (simp_all add: match_integer_def before_final_newline_strip digits_upto_def)
    from py_int_digits[OF this] obtain n where "py_int (strip s) = Inr n" "0 \<le> n" by auto
    with 1 PStr assms(2) show ?thesis by (simp add: calc_size_def)
  next
    case 2
    from percentage_digits[OF 2(2)] obtain n where
      n: "py_int (filter (\<lambda>c. c \<noteq> CHR ''%'') (strip s)) = Inr n" by auto
    let ?p = "if 0 < n \<and> n \<le> 100 then n else 100"
    from assms(3) PStr 2(2) have "T \<le> 2 ^ 53" by simp
    moreover have "0 < ?p" "?p \<le> 100" by simp_all
    ultimately obtain f where
      "truediv (T * ?p) 100 = Inr f" "0 \<le> int_of_float f" "int_of_float f \<le> T"
      using percent_bound[OF assms(2), of ?p] by blast
    with 2 PStr n show ?thesis by (simp add: calc_size_def Let_def)
  next
    case 3
    with PStr assms(2) show ?thesis by (simp add: calc_size_def)
  qed
qed

lemma calc_size_PInt: "calc_size (PInt r) T tr = (Inr (min (if 0 < r then r else 0) T), tr)"
  by (simp add: calc_size_def)

text \<open>
  Claim C4 says \<^verbatim>\<open>calc_size\<close> never returns a negative value, whatever the target
  extent. With a negative target the clamp \<^verbatim>\<open>min(source, target)\<close> returns the target.
\<close>
theorem calc_size_negative_for_negative_target:
  "fst (calc_size (PInt 5) (- 3) []) = Inr (- 3)"
  by (simp add: calc_size_def)

lemma calc_size_exceeds_large_target:
  "fst (calc_size (PStr ''100%'') (2 ^ 53 + 3) []) = Inr (2 ^ 53 + 4)"
  by code_simp

text \<open>
  Claim C4, as the code has it: for an integer or string source and a target extent that
  is not negative, \<^verbatim>\<open>calc_size\<close> returns a value between 0 and the target; for a
  percentage source the target must also be at most \<open>2 ^ 53\<close>, because the percentage is
  computed in floating point (\<open>calc_size_exceeds_large_target\<close> shows the bound is
  needed).
\<close>
theorem calc_size_within_target:
  assumes "0 \<le> target" and "source \<noteq> PNone"
    and "\<forall>s. source = PStr s \<and> match_percentage (strip s) \<longrightarrow> target \<le> 2 ^ 53"
  shows "\<exists>r. fst (calc_size source target tr) = Inr r \<and> 0 \<le> r \<and> r \<le> target"
  using calc_size_result[OF assms(2,1,3), of tr] by auto

theorem calc_size_within_target_witness:
  "(0::int) \<le> 2560 \<and> PStr ''50%'' \<noteq> PNone \<and> match_percentage (strip ''50%'') \<and>
   (2560::int) \<le> 2 ^ 53 \<and> fst (calc_size (PStr ''50%'') 2560 []) = Inr 1280"
proof -
  have a: "(0::int) \<le> 2560" by simp
  have b: "PStr ''50%'' \<noteq> PNone" by simp
  have c: "\<forall>s. PStr ''50%'' = PStr s \<and> match_percentage (strip s) \<longrightarrow> (2560::int) \<le> 2 ^ 53"
    by simp
  have d: "match_percentage (strip ''50%'')" by code_simp
  have e: "fst (calc_size (PStr ''50%'') 2560 []) = Inr 1280" by code_simp
  from calc_size_within_target[OF a b c, of "[]"] d e show ?thesis by simp
qed

text \<open>
  Claim C10 says \<^verbatim>\<open>calc_size\<close> applied to its own output gives that output again,
  whatever the target extent. With the target \<open>-1\<close>, half of it truncates to 0, and 0
  clamped to the target is \<open>-1\<close>.
\<close>
theorem calc_size_not_idempotent_for_negative_target:
  "fst (calc_size (PStr ''50%'') (- 1) []) = Inr 0 \<and>
   fst (calc_size (PInt 0) (- 1) []) = Inr (- 1)"
  by code_simp

text \<open>
  Claim C10, as the code has it: for an integer or string source and a target extent that
  is not negative (and at most \<open>2 ^ 53\<close> for a percentage source), \<^verbatim>\<open>calc_size\<close>
  returns a value that \<^verbatim>\<open>calc_size\<close> maps to itself.
\<close>
theorem calc_size_idempotent:
  assumes "0 \<le> target" and "source \<noteq> PNone"
    and "\<forall>s. source = PStr s \<and> match_percentage (strip s) \<longrightarrow> target \<le> 2 ^ 53"
  shows "\<exists>r. fst (calc_size source target tr) = Inr r \<and>
             fst (calc_size (PInt r) target tr2) = Inr r"
proof -
  from calc_size_result[OF assms(2,1,3), of tr] obtain r tr' where
    "calc_size source target tr = (Inr r, tr')" "0 \<le> r" "r \<le> target" by auto
  then show ?thesis by (auto simp: calc_size_PInt)
qed

theorem calc_size_idempotent_witness:
  "(0::int) \<le> 1000 \<and> PStr ''150%'' \<noteq> PNone \<and> match_percentage (strip ''150%'') \<and>
   (1000::int) \<le> 2 ^ 53 \<and>
   fst (calc_size (PStr ''150%'') 1000 []) = Inr 1000 \<and>
   fst (calc_size (PInt 1000) 1000 []) = Inr 1000"
proof -
  have a: "(0::int) \<le> 1000" by simp
  have b: "PStr ''150%'' \<noteq> PNone" by simp
  have c: "\<forall>s. PStr ''150%'' = PStr s \<and> match_percentage (strip s) \<longrightarrow> (1000::int) \<le> 2 ^ 53"
    by simp
  have d: "match_percentage (strip ''150%'')" by code_simp
  have e: "fst (calc_size (PStr ''150%'') 1000 []) = Inr 1000" by code_simp
  from calc_size_idempotent[OF a b c, of "[]" "[]"] d e show ?thesis by simp
qed

text \<open>
  Claim C5 says \<^verbatim>\<open>center\<close> gives the floor division of the free space by 2, for every
  width and screen width. \<^verbatim>\<open>int((screen_width - width) / 2)\<close> truncates towards zero:
  for a window one pixel wider than the screen it gives 0, the floor division \<open>-1\<close>.
\<close>
theorem calc_pos_center_truncates_towards_zero:
  "fst (calc_pos (PStr ''center center'') 3 0 2 0 []) = Inr (0, 0) \<and>
   (2 - 3) div 2 = (- 1 :: int)"
  by code_simp

lemma split_tokens:
  "split '' '' ''top left'' = [''top'', ''left'']"
  "split '' '' ''center center'' = [''center'', ''center'']"
  "split '' '' ''bottom right'' = [''bottom'', ''right'']"
  by code_simp+

lemma lower_tokens:
  "lower ''top'' = ''top''" "lower ''left'' = ''left''" "lower ''center'' = ''center''"
  "lower ''bottom'' = ''bottom''" "lower ''right'' = ''right''"
  by code_simp+

lemma calc_pos_top_left:
  "calc_pos (PStr ''top left'') w h sw sh tr = (Inr (0, 0), tr)"
  by (simp add: calc_pos_def split_tokens lower_tokens bind_def)

lemma calc_pos_bottom_right:
  "calc_pos (PStr ''bottom right'') w h sw sh tr = (Inr (sw - w, sh - h), tr)"
  by (simp add: calc_pos_def split_tokens lower_tokens bind_def)

lemma calc_pos_center_center:
  assumes "0 \<le> sw - w" "sw - w \<le> 2 ^ 53" "0 \<le> sh - h" "sh - h \<le> 2 ^ 53"
  shows "calc_pos (PStr ''center center'') w h sw sh tr
           = (Inr ((sw - w) div 2, (sh - h) div 2), tr)"
proof -
  from half_exact[OF assms(1,2)] obtain fx where
    fx: "truediv (sw - w) 2 = Inr fx" "int_of_float fx = (sw - w) div 2" by auto
  from half_exact[OF assms(3,4)] obtain fy where
    fy: "truediv (sh - h) 2 = Inr fy" "int_of_float fy = (sh - h) div 2" by auto
  show ?thesis
    by (simp add: calc_pos_def split_tokens lower_tokens bind_def fx fy)
qed

lemma bind_pair_snd:
  "bind m (\<lambda>x_pos. ret (x_pos, y0)) t = (Inr (x, y), t') \<Longrightarrow> y = y0"
  by (auto simp: bind_def split: prod.splits sum.splits)

lemma bind_pair_fst:
  "bind m (\<lambda>y_pos. bind (ret x0) (\<lambda>x_pos. ret (x_pos, y_pos))) t = (Inr (x, y), t') \<Longrightarrow> x = x0"
  by (auto simp: bind_def split: prod.splits sum.splits)

lemma calc_pos_bottom:
  assumes "split '' '' p = [p0, p1]" "lower p0 = ''bottom''"
    and "calc_pos (PStr p) w h sw sh tr = (Inr (x, y), tr')"
  shows "y = sh - h"
proof (cases "lower p1 \<in> {''left'', ''center'', ''right''} \<or> endswith_percent (lower p1)")
  case True
  have "calc_pos (PStr p) w h sw sh tr = bind
       (if lower p1 = ''left'' then ret 0
        else if lower p1 = ''center'' then
          bind (lift (truediv (sw - w) 2)) (\<lambda>f. ret (int_of_float f))
        else if lower p1 = ''right'' then ret (sw - w)
        else calc_size (PStr (lower p1)) (sw - w))
       (\<lambda>x_pos. ret (x_pos, sh - h)) tr"
    using True by (auto simp add: calc_pos_def Let_def assms(1,2) bind_def)
  with assms(3) show ?thesis by (simp only: bind_pair_snd)
next
  case False
  then have "calc_pos (PStr p) w h sw sh tr = (Inl AssertionError, tr)"
    by (simp add: calc_pos_def Let_def assms(1,2))
  with assms(3) show ?thesis by simp
qed

lemma calc_pos_right:
  assumes "split '' '' p = [p0, p1]" "lower p1 = ''right''"
    and "calc_pos (PStr p) w h sw sh tr = (Inr (x, y), tr')"
  shows "x = sw - w"
proof (cases "lower p0 \<in> {''top'', ''center'', ''bottom''} \<or> endswith_percent (lower p0)")
  case True
  have "calc_pos (PStr p) w h sw sh tr = bind
       (if lower p0 = ''top'' then ret 0
        else if lower p0 = ''center'' then
          bind (lift (truediv (sh - h) 2)) (\<lambda>f. ret (int_of_float f))
        else if lower p0 = ''bottom'' then ret (sh - h)
        else calc_size (PStr (lower p0)) (sh - h))
       (\<lambda>y_pos. bind (ret (sw - w)) (\<lambda>x_pos. ret (x_pos, y_pos))) tr"
    using True by (auto simp add: calc_pos_def Let_def assms(1,2) bind_def)
  with assms(3) show ?thesis by (simp only: bind_pair_fst)
next
  case False
  then have "calc_pos (PStr p) w h sw sh tr = (Inl AssertionError, tr)"
    by (simp add: calc_pos_def Let_def assms(1,2))
  with assms(3) show ?thesis by simp
qed

text \<open>
  Claim C5, as the code has it: \<^verbatim>\<open>top left\<close> gives \<open>(0, 0)\<close> for every input;
  \<^verbatim>\<open>center center\<close> gives the floor division of the free space by 2 on each axis when
  the free space is between 0 and \<open>2 ^ 53\<close>; \<^verbatim>\<open>bottom right\<close> gives the whole free
  space on both axes; and whenever \<^verbatim>\<open>calc_pos\<close> returns, a vertical token \<^verbatim>\<open>bottom\<close>
  has given \<open>y = screen_height - height\<close> and a horizontal token \<^verbatim>\<open>right\<close> has given
  \<open>x = screen_width - width\<close>.
\<close>
theorem calc_pos_keywords:
  "calc_pos (PStr ''top left'') w h sw sh tr = (Inr (0, 0), tr) \<and>
   (0 \<le> sw - w \<and> sw - w \<le> 2 ^ 53 \<and> 0 \<le> sh - h \<and> sh - h \<le> 2 ^ 53 \<longrightarrow>
      calc_pos (PStr ''center center'') w h sw sh tr
        = (Inr ((sw - w) div 2, (sh - h) div 2), tr)) \<and>
   calc_pos (PStr ''bottom right'') w h sw sh tr = (Inr (sw - w, sh - h), tr) \<and>
   (\<forall>p p0 p1 x y tr'.
       split '' '' p = [p0, p1] \<and> lower p0 = ''bottom'' \<and>
       calc_pos (PStr p) w h sw sh tr = (Inr (x, y), tr') \<longrightarrow> y = sh - h) \<and>
   (\<forall>p p0 p1 x y tr'.
       split '' '' p = [p0, p1] \<and> lower p1 = ''right'' \<and>
       calc_pos (PStr p) w h sw sh tr = (Inr (x, y), tr') \<longrightarrow> x = sw - w)"
proof (intro conjI allI impI)
  show "calc_pos (PStr ''top left'') w h sw sh tr = (Inr (0, 0), tr)"
    by (rule calc_pos_top_left)
next
  assume "0 \<le> sw - w \<and> sw - w \<le> 2 ^ 53 \<and> 0 \<le> sh - h \<and> sh - h \<le> 2 ^ 53"
  then show "calc_pos (PStr ''center center'') w h sw sh tr
        = (Inr ((sw - w) div 2, (sh - h) div 2), tr)"
    by (intro calc_pos_center_center) simp_all
next
  show "calc_pos (PStr ''bottom right'') w h sw sh tr = (Inr (sw - w, sh - h), tr)"
    by (rule calc_pos_bottom_right)
next
  fix p p0 p1 x y tr'
  assume "split '' '' p = [p0, p1] \<and> lower p0 = ''bottom'' \<and>
       calc_pos (PStr p) w h sw sh tr = (Inr (x, y), tr')"
  then show "y = sh - h" using calc_pos_bottom by blast
next
  fix p p0 p1 x y tr'
  assume "split '' '' p = [p0, p1] \<and> lower p1 = ''right'' \<and>
       calc_pos (PStr p) w h sw sh tr = (Inr (x, y), tr')"
  then show "x = sw - w" using calc_pos_right by blast
qed

theorem calc_pos_keywords_witness:
  "(0::int) \<le> 2560 - 1280 \<and> (2560::int) - 1280 \<le> 2 ^ 53 \<and>
   (0::int) \<le> 1600 - 800 \<and> (1600::int) - 800 \<le> 2 ^ 53 \<and>
   calc_pos (PStr ''center center'') 1280 800 2560 1600 [] = (Inr (640, 400), []) \<and>
   split '' '' ''Bottom 50%'' = [''Bottom'', ''50%''] \<and> lower ''Bottom'' = ''bottom'' \<and>
   calc_pos (PStr ''Bottom 50%'') 1280 800 2560 1600 [] = (Inr (640, 800), []) \<and>
   split '' '' ''center right'' = [''center'', ''right''] \<and> lower ''right'' = ''right'' \<and>
   calc_pos (PStr ''center right'') 1280 800 2560 1600 [] = (Inr (1280, 400), [])"
proof -
  have a: "split '' '' ''Bottom 50%'' = [''Bottom'', ''50%'']" "lower ''Bottom'' = ''bottom''"
    "split '' '' ''center right'' = [''center'', ''right'']" "lower ''right'' = ''right''"
    by code_simp+
  have b: "calc_pos (PStr ''Bottom 50%'') 1280 800 2560 1600 [] = (Inr (640, 800), [])"
    by code_simp
  have c: "calc_pos (PStr ''center right'') 1280 800 2560 1600 [] = (Inr (1280, 400), [])"
    by code_simp
  from calc_pos_keywords[of 1280 800 2560 1600 "[]"]
  have "calc_pos (PStr ''center center'') 1280 800 2560 1600 [] = (Inr (640, 400), [])"
    by simp
  with a b c show ?thesis by simp
qed

section \<open>Properties of the orchestrator\<close>

text \<open>
  Claim C1 says a rule with neither \<^verbatim>\<open>search_name\<close> nor \<^verbatim>\<open>search_process\<close> is reported
  and skipped, and the run goes on with the remaining rules. The failed \<^verbatim>\<open>assert\<close>
  leaves \<^verbatim>\<open>arrange_windows\<close>: the run ends there, nothing is printed for the rule, and
  the second rule (which has a search criterion) is never looked at.
\<close>
theorem run_aborts_at_rule_without_search_criterion:
  "arrange_windows env_ok ''config.json''
     (Inr (DocList [[''name'' \<mapsto> PStr ''A''], [''search_name'' \<mapsto> PStr ''Firefox'']])) []
   = (Inl AssertionError,
      [Call [Lit ''xrandr'', Lit ''--listactivemonitors''],
       Call [Lit ''xdotool'', Lit ''get_num_desktops''],
       Print ''info'' [Lit ''There are already '', Val (PInt 1), Lit '' or more desktops'']])"
  by code_simp

text \<open>
  Claim C1, as the code has it: for every rule lacking both \<^verbatim>\<open>search_name\<close> and
  \<^verbatim>\<open>search_process\<close> (absent, or empty, zero or \<^verbatim>\<open>None\<close>) the validation fails before
  any external call or message for that rule, with an \<^verbatim>\<open>AssertionError\<close> that ends the
  loop over the rules: the remaining rules are not processed.
\<close>
theorem rule_without_search_criterion_fails_assertion:
  assumes "\<not> truthy (dict_get r ''search_name'' (PStr []))"
    and "\<not> truthy (dict_get r ''search_process'' (PStr []))"
  shows "arrange_window env r screens tr = (Inl AssertionError, tr) \<and>
         arrange_loop env (r # rest) screens tr = (Inl AssertionError, tr)"
proof -
  have "arrange_window env r screens tr = (Inl AssertionError, tr)"
    using assms by (simp add: arrange_window_def merge_defaults_def Let_def)
  then show ?thesis by simp
qed

theorem rule_without_search_criterion_fails_assertion_witness:
  "\<not> truthy (dict_get [''name'' \<mapsto> PStr ''A''] ''search_name'' (PStr [])) \<and>
   \<not> truthy (dict_get [''name'' \<mapsto> PStr ''A''] ''search_process'' (PStr [])) \<and>
   arrange_loop env_ok [[''name'' \<mapsto> PStr ''A''], [''search_name'' \<mapsto> PStr ''Firefox'']]
     [screen_DP4, screen_DP2] [] = (Inl AssertionError, [])"
proof -
  have a: "\<not> truthy (dict_get [''name'' \<mapsto> PStr ''A''] ''search_name'' (PStr []))"
    by (simp add: dict_get_def)
  have b: "\<not> truthy (dict_get [''name'' \<mapsto> PStr ''A''] ''search_process'' (PStr []))"
    by (simp add: dict_get_def)
  from rule_without_search_criterion_fails_assertion[OF a b] a b show ?thesis by blast
qed

text \<open>
  Claim C6 says that a rule whose screen index is not a non-negative integer in range is
  skipped with a reported error and that no failure is raised. A screen value that is a
  string fails the \<^verbatim>\<open>assert isinstance(config['screen'], int)\<close>, and the run ends with
  that \<^verbatim>\<open>AssertionError\<close>.
\<close>
theorem run_aborts_at_non_integer_screen:
  "arrange_windows env_ok ''config.json''
     (Inr (DocList [[''search_name'' \<mapsto> PStr ''Firefox'', ''screen'' \<mapsto> PStr ''1'']])) []
   = (Inl AssertionError,
      [Call [Lit ''xrandr'', Lit ''--listactivemonitors''],
       Call [Lit ''xdotool'', Lit ''get_num_desktops''],
       Print ''info'' [Lit ''There are already '', Val (PInt 1), Lit '' or more desktops'']])"
  by code_simp

text \<open>
  Claim C6, as the code has it: for every rule with a search criterion whose screen index
  is an integer not below the number of active screens, the rule is skipped with one
  error message, no external call is made for it, no exception is raised, and the loop
  goes on with the next rule; a screen value that is not an integer fails an assertion.
  (Nothing is said here about negative indices.)
\<close>
theorem screen_index_beyond_count_is_skipped:
  assumes "truthy (dict_get r ''search_name'' (PStr [])) \<or>
           truthy (dict_get r ''search_process'' (PStr []))"
  shows "(\<forall>i. dict_get r ''screen'' (PInt 0) = PInt i \<and> int (length screens) \<le> i \<longrightarrow>
            arrange_window env r screens tr =
              (Inr (), tr @ [Print ''error''
                 [Lit ''There are only '', Val (PInt (int (length screens))),
                  Lit '' available. Can't set '', Val (dict_get r ''name'' (PStr ''Unknown'')),
                  Lit '' on screen '', Val (PInt i)]]) \<and>
            arrange_loop env (r # rest) screens tr =
              arrange_loop env rest screens (tr @ [Print ''error''
                 [Lit ''There are only '', Val (PInt (int (length screens))),
                  Lit '' available. Can't set '', Val (dict_get r ''name'' (PStr ''Unknown'')),
                  Lit '' on screen '', Val (PInt i)]])) \<and>
         ((\<forall>i. dict_get r ''screen'' (PInt 0) \<noteq> PInt i) \<longrightarrow>
            arrange_window env r screens tr = (Inl AssertionError, tr))"
proof (intro conjI allI impI)
  fix i
  assume a: "dict_get r ''screen'' (PInt 0) = PInt i \<and> int (length screens) \<le> i"
  have w: "arrange_window env r screens tr =
              (Inr (), tr @ [Print ''error''
                 [Lit ''There are only '', Val (PInt (int (length screens))),
                  Lit '' available. Can't set '', Val (dict_get r ''name'' (PStr ''Unknown'')),
                  Lit '' on screen '', Val (PInt i)]])"
    using assms a by (simp add: arrange_window_def merge_defaults_def Let_def)
  then show "arrange_window env r screens tr =
              (Inr (), tr @ [Print ''error''
                 [Lit ''There are only '', Val (PInt (int (length screens))),
                  Lit '' available. Can't set '', Val (dict_get r ''name'' (PStr ''Unknown'')),
                  Lit '' on screen '', Val (PInt i)]])" .
  from w show "arrange_loop env (r # rest) screens tr =
              arrange_loop env rest screens (tr @ [Print ''error''
                 [Lit ''There are only '', Val (PInt (int (length screens))),
                  Lit '' available. Can't set '', Val (dict_get r ''name'' (PStr ''Unknown'')),
                  Lit '' on screen '', Val (PInt i)]])"
    by simp
next
  assume "\<forall>i. dict_get r ''screen'' (PInt 0) \<noteq> PInt i"
  then show "arrange_window env r screens tr = (Inl AssertionError, tr)"
    using assms
    by (cases "dict_get r ''screen'' (PInt 0)")
       (simp_all add: arrange_window_def merge_defaults_def Let_def)
qed

theorem screen_index_beyond_count_is_skipped_witness:
  "truthy (dict_get [''search_name'' \<mapsto> PStr ''Firefox'', ''screen'' \<mapsto> PInt 5] ''search_name'' (PStr [])) \<and>
   dict_get [''search_name'' \<mapsto> PStr ''Firefox'', ''screen'' \<mapsto> PInt 5] ''screen'' (PInt 0) = PInt 5 \<and>
   int (length [screen_DP4, screen_DP2]) \<le> 5 \<and>
   arrange_loop env_ok [[''search_name'' \<mapsto> PStr ''Firefox'', ''screen'' \<mapsto> PInt 5]]
       [screen_DP4, screen_DP2] []
     = (Inr (), [Print ''error''
                 [Lit ''There are only '', Val (PInt 2),
                  Lit '' available. Can't set '', Val (PStr ''Unknown''),
                  Lit '' on screen '', Val (PInt 5)]])"
proof -
  let ?r = "[''search_name'' \<mapsto> PStr ''Firefox'', ''screen'' \<mapsto> PInt 5]"
  have a: "truthy (dict_get ?r ''search_name'' (PStr [])) \<or>
           truthy (dict_get ?r ''search_process'' (PStr []))"
    by (simp add: dict_get_def)
  have b: "dict_get ?r ''screen'' (PInt 0) = PInt 5 \<and> int (length [screen_DP4, screen_DP2]) \<le> 5"
    by (simp add: dict_get_def)
  have n: "dict_get ?r ''name'' (PStr ''Unknown'') = PStr ''Unknown''"
    by (simp add: dict_get_def)
  from screen_index_beyond_count_is_skipped[OF a, of "[screen_DP4, screen_DP2]" env_ok "[]" "[]"] b
  have "arrange_loop env_ok [?r] [screen_DP4, screen_DP2] []
     = arrange_loop env_ok [] [screen_DP4, screen_DP2] ([] @ [Print ''error''
                 [Lit ''There are only '', Val (PInt (int (length [screen_DP4, screen_DP2]))),
                  Lit '' available. Can't set '', Val (dict_get ?r ''name'' (PStr ''Unknown'')),
                  Lit '' on screen '', Val (PInt 5)]])"
    by blast
  with n a b show ?thesis by (simp add: dict_get_def)
qed

text \<open>
  Claim C7 says the run ensures more desktops than the largest desktop index of any
  rule, counting the default 2 of a rule without \<^verbatim>\<open>desktop\<close>. \<^verbatim>\<open>arrange_windows\<close> takes
  the maximum with the default 0, \<^verbatim>\<open>arrange_window\<close> assigns with the default 2: with
  one rule without \<^verbatim>\<open>desktop\<close> and one existing desktop, the run asks for 1 desktop,
  finds it there, and assigns the window to desktop 2.
\<close>
theorem default_desktop_is_not_counted:
  "arrange_windows env_ok ''config.json''
     (Inr (DocList [[''search_name'' \<mapsto> PStr ''Firefox'']])) []
   = (Inr (),
      [Call [Lit ''xrandr'', Lit ''--listactivemonitors''],
       Call [Lit ''xdotool'', Lit ''get_num_desktops''],
       Print ''info'' [Lit ''There are already '', Val (PInt 1), Lit '' or more desktops''],
       Call [Lit ''xdotool'', Lit ''search'', Lit ''--name'', Lit ''Firefox''],
       Print ''info'' [Lit ''Moving the '', Val (PStr ''Unknown''), Lit '' window '', Lit ''222'',
                      Lit '' to position '', Val (PInt 0), Lit '' x '', Val (PInt 0)],
       Call [Lit ''xdotool'', Lit ''windowmove'', Lit ''222'', Val (PInt 0), Val (PInt 0)],
       Print ''info'' [Lit ''Setting size '', Val (PInt 0), Lit '' x '', Val (PInt 0),
                      Lit '' for '', Val (PStr ''Unknown''), Lit '' window '', Lit ''222''],
       Call [Lit ''xdotool'', Lit ''windowsize'', Lit ''222'', Val (PInt 0), Val (PInt 0)],
       Print ''info'' [Lit ''Moving '', Val (PStr ''Unknown''), Lit '' window '', Lit ''222'',
                      Lit '' to desktop '', Val (PInt 2)],
       Call [Lit ''xdotool'', Lit ''set_desktop_for_window'', Lit ''222'', Val (PInt 2)]])"
  by code_simp


lemma bind_cases:
  assumes "bind m f tr = (res, tr')"
  obtains e where "m tr = (Inl e, tr')" "res = Inl e"
  | v t where "m tr = (Inr v, t)" "f v t = (res, tr')"
proof (cases "m tr")
  case (Pair r t)
  show ?thesis
  proof (cases r)
    case (Inl e)
    with Pair assms have "res = Inl e" "tr' = t" by (simp_all add: bind_def)
    with Pair Inl that(1) show ?thesis by simp
  next
    case (Inr v)
    with Pair assms have "f v t = (res, tr')" by (simp add: bind_def)
    with Pair Inr that(2) show ?thesis by simp
  qed
qed

lemma placement_calls_simps [simp]:
  "placement_calls [] = []"
  "placement_calls (xs @ ys) = placement_calls xs @ placement_calls ys"
  "placement_calls (Print l m # evs) = placement_calls evs"
  by (simp_all add: placement_calls_def List.map_filter_def placement_kind_def)

lemma placement_calls_Call:
  "placement_calls (Call c # evs) =
     (case placement_kind (Call c) of None \<Rightarrow> placement_calls evs
      | Some k \<Rightarrow> k # placement_calls evs)"
  by (simp add: placement_calls_def List.map_filter_def split: option.splits)

lemma placement_calls_Nil_iff:
  "placement_calls evs = [] \<longleftrightarrow> (\<forall>ev \<in> set evs. placement_kind ev = None)"
  by (induction evs) (auto simp: placement_calls_def List.map_filter_def)

lemma quietI:
  "(\<And>tr res tr'. m tr = (res, tr') \<Longrightarrow> \<exists>new. tr' = tr @ new \<and> placement_calls new = [])
     \<Longrightarrow> quiet m"
  by (simp add: quiet_def)

lemma quietD:
  "quiet m \<Longrightarrow> m tr = (res, tr') \<Longrightarrow> \<exists>new. tr' = tr @ new \<and> placement_calls new = []"
  by (simp add: quiet_def)

lemma quiet_ret [intro!, simp]: "quiet (ret v)"
  by (rule quietI) simp

lemma quiet_raise [intro!, simp]: "quiet (raise e)"
  by (rule quietI) simp

lemma quiet_lift [intro!, simp]: "quiet (lift r)"
  by (rule quietI) simp

lemma quiet_log [intro!, simp]: "quiet (log msg level)"
  by (rule quietI) auto

lemma quiet_check_output:
  "placement_kind (Call cmd) = None \<Longrightarrow> quiet (check_output env cmd)"
  by (rule quietI) (auto simp: placement_calls_Call)

lemma quiet_bind [intro!]:
  assumes "quiet m" "\<And>v. quiet (f v)"
  shows "quiet (bind m f)"
proof (rule quietI)
  fix tr res tr'
  assume "bind m f tr = (res, tr')"
  then show "\<exists>new. tr' = tr @ new \<and> placement_calls new = []"
  proof (cases rule: bind_cases)
    case (1 e)
    from quietD[OF assms(1) 1(1)] show ?thesis .
  next
    case (2 v t)
    from quietD[OF assms(1) 2(1)] obtain n1 where n1: "t = tr @ n1" "placement_calls n1 = []" by auto
    from quietD[OF assms(2) 2(2)] obtain n2 where n2: "tr' = t @ n2" "placement_calls n2 = []" by auto
    from n1 n2 have "tr' = tr @ (n1 @ n2) \<and> placement_calls (n1 @ n2) = []" by simp
    then show ?thesis by blast
  qed
qed

lemma quiet_except [intro!]:
  assumes "quiet m" "\<And>out. quiet (h out)"
  shows "quiet (except_called_process_error m h)"
proof (rule quietI)
  fix tr res tr'
  assume a: "except_called_process_error m h tr = (res, tr')"
  obtain r t where mt: "m tr = (r, t)" by (cases "m tr")
  from quietD[OF assms(1) mt] obtain n1 where n1: "t = tr @ n1" "placement_calls n1 = []" by auto
  show "\<exists>new. tr' = tr @ new \<and> placement_calls new = []"
  proof (cases "\<exists>out. r = Inl (CalledProcessError out)")
    case True
    then obtain out where "r = Inl (CalledProcessError out)" by auto
    with a mt have "h out t = (res, tr')" by (simp add: except_called_process_error_def)
    from quietD[OF assms(2) this] obtain n2 where "tr' = t @ n2" "placement_calls n2 = []" by auto
    with n1 have "tr' = tr @ (n1 @ n2) \<and> placement_calls (n1 @ n2) = []" by simp
    then show ?thesis by blast
  next
    case False
    with a mt have "tr' = t"
      by (auto simp: except_called_process_error_def split: sum.splits error.splits)
    with n1 show ?thesis by blast
  qed
qed

lemma quiet_if [intro!]: "(c \<Longrightarrow> quiet a) \<Longrightarrow> (\<not> c \<Longrightarrow> quiet b) \<Longrightarrow> quiet (if c then a else b)"
  by simp

lemma quiet_calc_size [intro!, simp]: "quiet (calc_size source target)"
  unfolding calc_size_def Let_def
  by (cases source) auto

lemma quiet_calc_pos [intro!, simp]: "quiet (calc_pos position w h sw sh)"
  unfolding calc_pos_def Let_def
  by (auto split: pyval.splits list.splits)

lemma quiet_str_arg [intro!, simp]: "quiet (str_arg v)"
  unfolding str_arg_def by (cases v) auto

lemma quiet_get_pid [intro!, simp]: "quiet (get_pid env search_process)"
  unfolding get_pid_def
  by (auto split: list.splits frag.splits
      intro!: quiet_check_output simp: placement_kind_def)


lemma search_command_result:
  assumes "search_command pid search_name tr = (Inr command, t)"
  shows "t = tr \<and> placement_kind (Call command) = None"
  using assms unfolding search_command_def Let_def str_arg_def
  by (auto simp: placement_kind_def bind_def split: option.splits if_splits pyval.splits)

lemma search_command_error:
  assumes "search_command pid search_name tr = (Inl e, t)"
  shows "t = tr"
  using assms unfolding search_command_def Let_def str_arg_def
  by (auto simp: bind_def split: option.splits if_splits pyval.splits)

lemma quiet_search [intro!, simp]:
  "quiet (bind (search_command pid search_name)
            (\<lambda>command. bind (check_output env command) (\<lambda>output. ret (Inr output))))"
proof (rule quietI)
  fix tr res tr'
  assume "bind (search_command pid search_name)
            (\<lambda>command. bind (check_output env command) (\<lambda>output. ret (Inr output))) tr = (res, tr')"
  then show "\<exists>new. tr' = tr @ new \<and> placement_calls new = []"
  proof (cases rule: bind_cases)
    case (1 e)
    from search_command_error[OF 1(1)] show ?thesis by simp
  next
    case (2 command t)
    from search_command_result[OF 2(1)] have t: "t = tr" and k: "placement_kind (Call command) = None"
      by simp_all
    from k have "quiet (bind (check_output env command) (\<lambda>output. ret (Inr output)))"
      by (intro quiet_bind quiet_check_output quiet_ret)
    from quietD[OF this 2(2)] t show ?thesis by simp
  qed
qed

lemma quiet_get_window [intro!, simp]: "quiet (get_window env search_name search_process)"
  unfolding get_window_def Let_def
  by (intro quiet_bind quiet_except quiet_get_pid quiet_ret quiet_log)
     (auto split: sum.splits)

lemma append_eq_stop:
  assumes "xs @ ys = pre @ c # post" "c \<notin> set xs"
  shows "\<exists>pre2. pre = xs @ pre2 \<and> ys = pre2 @ c # post"
  using assms
proof (induction xs arbitrary: pre)
  case Nil
  then show ?case by simp
next
  case (Cons x xs)
  from Cons.prems obtain pre' where p: "pre = x # pre'"
    by (cases pre) auto
  with Cons.prems have "xs @ ys = pre' @ c # post" "c \<notin> set xs" by simp_all
  from Cons.IH[OF this] p show ?case by auto
qed

lemma append_eq_last:
  "pre @ [c] = xs @ ys \<Longrightarrow> ys \<noteq> [] \<Longrightarrow> \<exists>pre2. ys = pre2 @ [c] \<and> pre = xs @ pre2"
  by (metis append_assoc append_butlast_last_id butlast_append butlast_snoc
      last_appendR last_snoc)

lemma placed_after_quiet:
  assumes "placement_calls n1 = []" "placed ks env (tr @ n1) n2 res"
  shows "placed ks env tr (n1 @ n2) res"
proof -
  from assms(1) have none: "\<forall>ev \<in> set n1. placement_kind ev = None"
    by (simp add: placement_calls_Nil_iff)
  from assms(2) have pre: "\<exists>rest. ks = placement_calls n2 @ rest"
    and full: "res = Inr () \<longrightarrow> placement_calls n2 = ks"
    and stop: "stops_at_failure env (tr @ n1) n2 res"
    and fin: "placement_calls n2 \<noteq> ks \<longrightarrow> ends_in_failure env (tr @ n1) n2 res"
    by (simp_all add: placed_def)
  have s: "stops_at_failure env tr (n1 @ n2) res"
    unfolding stops_at_failure_def
  proof (intro allI impI)
    fix pre cmd post e
    assume a: "n1 @ n2 = pre @ Call cmd # post \<and> placement_kind (Call cmd) \<noteq> None \<and>
         env (tr @ pre) cmd = Inl e"
    with none have "Call cmd \<notin> set n1" by auto
    with a append_eq_stop[of n1 n2 pre "Call cmd" post]
    obtain pre2 where p: "pre = n1 @ pre2" "n2 = pre2 @ Call cmd # post" by auto
    with a have "env ((tr @ n1) @ pre2) cmd = Inl e" by simp
    with stop p(2) a show "post = [] \<and> res = Inl e"
      unfolding stops_at_failure_def by blast
  qed
  have f: "placement_calls (n1 @ n2) \<noteq> ks \<longrightarrow> ends_in_failure env tr (n1 @ n2) res"
  proof
    assume "placement_calls (n1 @ n2) \<noteq> ks"
    with assms(1) fin have "ends_in_failure env (tr @ n1) n2 res" by simp
    then obtain pre cmd e where
      "n2 = pre @ [Call cmd]" "placement_kind (Call cmd) \<noteq> None"
      "env ((tr @ n1) @ pre) cmd = Inl e" "res = Inl e"
      unfolding ends_in_failure_def by blast
    then have "n1 @ n2 = (n1 @ pre) @ [Call cmd] \<and> placement_kind (Call cmd) \<noteq> None \<and>
        env (tr @ (n1 @ pre)) cmd = Inl e \<and> res = Inl e" by simp
    then show "ends_in_failure env tr (n1 @ n2) res"
      unfolding ends_in_failure_def by blast
  qed
  from pre full s f assms(1) show ?thesis by (simp add: placed_def)
qed

lemma arrangedI:
  "(\<And>tr res tr'. m tr = (res, tr') \<Longrightarrow>
      \<exists>new. tr' = tr @ new \<and>
        (placement_calls new = [] \<or>
         placed [''windowmove'', ''windowsize'', ''set_desktop_for_window''] env tr new res))
   \<Longrightarrow> arranged env m"
  by (simp add: arranged_def)

lemma arrangedD:
  "arranged env m \<Longrightarrow> m tr = (res, tr') \<Longrightarrow>
      \<exists>new. tr' = tr @ new \<and>
        (placement_calls new = [] \<or>
         placed [''windowmove'', ''windowsize'', ''set_desktop_for_window''] env tr new res)"
  by (simp add: arranged_def)

lemma arranged_quiet: "quiet m \<Longrightarrow> arranged env m"
  by (rule arrangedI) (blast dest: quietD)

lemma arranged_bind:
  assumes "quiet m" "\<And>v. arranged env (f v)"
  shows "arranged env (bind m f)"
proof (rule arrangedI)
  fix tr res tr'
  assume "bind m f tr = (res, tr')"
  then show "\<exists>new. tr' = tr @ new \<and>
        (placement_calls new = [] \<or>
         placed [''windowmove'', ''windowsize'', ''set_desktop_for_window''] env tr new res)"
  proof (cases rule: bind_cases)
    case (1 e)
    from quietD[OF assms(1) 1(1)] show ?thesis by blast
  next
    case (2 v t)
    from quietD[OF assms(1) 2(1)] obtain n1 where n1: "t = tr @ n1" "placement_calls n1 = []" by auto
    from arrangedD[OF assms(2) 2(2)] obtain n2 where n2: "tr' = t @ n2"
      and d: "placement_calls n2 = [] \<or>
         placed [''windowmove'', ''windowsize'', ''set_desktop_for_window''] env t n2 res" by auto
    from d n1 have "placement_calls (n1 @ n2) = [] \<or>
         placed [''windowmove'', ''windowsize'', ''set_desktop_for_window''] env tr (n1 @ n2) res"
      using placed_after_quiet[of n1 _ env tr n2 res] by auto
    moreover from n1 n2 have "tr' = tr @ (n1 @ n2)" by simp
    ultimately show ?thesis by blast
  qed
qed

lemma arranged_placing:
  "placing [''windowmove'', ''windowsize'', ''set_desktop_for_window''] env m \<Longrightarrow> arranged env m"
  unfolding placing_def arranged_def by blast


lemma placing_ret: "placing [] env (ret ())"
  by (simp add: placing_def placed_def stops_at_failure_def)

lemma placing_step:
  assumes k: "placement_kind (Call c) = Some k" and rest: "placing ks env rest"
  shows "placing (k # ks) env
           (bind (bind (log msg lvl) (\<lambda>_. bind (check_output env c) (\<lambda>output. ret (g output))))
              (\<lambda>_. rest))"
  unfolding placing_def
proof (intro allI impI)
  fix tr res tr'
  let ?P = "Print lvl msg" and ?C = "Call c"
  assume run: "bind (bind (log msg lvl) (\<lambda>_. bind (check_output env c) (\<lambda>output. ret (g output))))
              (\<lambda>_. rest) tr = (res, tr')"
  have pc: "placement_calls [?P, ?C] = [k]" using k by (simp add: placement_calls_Call)
  show "\<exists>new. tr' = tr @ new \<and> placed (k # ks) env tr new res"
  proof (cases "env (tr @ [?P]) c")
    case (Inl e)
    with run have r: "res = Inl e" "tr' = tr @ [?P, ?C]" by (simp_all add: bind_def)
    have "stops_at_failure env tr [?P, ?C] (Inl e)"
      unfolding stops_at_failure_def using Inl
      by (auto simp: Cons_eq_append_conv)
    moreover have "ends_in_failure env tr [?P, ?C] (Inl e)"
      unfolding ends_in_failure_def using Inl k
      by (intro exI[of _ "[?P]"] exI[of _ c] exI[of _ e]) simp
    ultimately have "placed (k # ks) env tr [?P, ?C] (Inl e)"
      using pc by (simp add: placed_def)
    with r show ?thesis by blast
  next
    case (Inr out)
    with run have "rest (tr @ [?P, ?C]) = (res, tr')" by (simp add: bind_def)
    with rest obtain n2 where n2: "tr' = (tr @ [?P, ?C]) @ n2"
      and p2: "placed ks env (tr @ [?P, ?C]) n2 res"
      unfolding placing_def by blast
    from p2 have pre: "\<exists>r. ks = placement_calls n2 @ r"
      and full: "res = Inr () \<longrightarrow> placement_calls n2 = ks"
      and stop: "stops_at_failure env (tr @ [?P, ?C]) n2 res"
      and fin: "placement_calls n2 \<noteq> ks \<longrightarrow> ends_in_failure env (tr @ [?P, ?C]) n2 res"
      by (simp_all add: placed_def)
    have s: "stops_at_failure env tr ([?P, ?C] @ n2) res"
      unfolding stops_at_failure_def
    proof (intro allI impI)
      fix pre cmd post e
      assume a: "[?P, ?C] @ n2 = pre @ Call cmd # post \<and> placement_kind (Call cmd) \<noteq> None \<and>
         env (tr @ pre) cmd = Inl e"
      then consider "pre = [?P]" "cmd = c" "post = n2"
        | pre2 where "pre = [?P, ?C] @ pre2" "n2 = pre2 @ Call cmd # post"
        by (auto simp: Cons_eq_append_conv)
      then show "post = [] \<and> res = Inl e"
      proof cases
        case 1
        with a Inr show ?thesis by simp
      next
        case 2
        with a have "env ((tr @ [?P, ?C]) @ pre2) cmd = Inl e" by simp
        with stop 2(2) a show ?thesis unfolding stops_at_failure_def by blast
      qed
    qed
    have f: "placement_calls ([?P, ?C] @ n2) \<noteq> k # ks \<longrightarrow> ends_in_failure env tr ([?P, ?C] @ n2) res"
    proof
      assume "placement_calls ([?P, ?C] @ n2) \<noteq> k # ks"
      with k have "placement_calls n2 \<noteq> ks" by (simp add: placement_calls_Call)
      with fin obtain pre cmd e where
        "n2 = pre @ [Call cmd]" "placement_kind (Call cmd) \<noteq> None"
        "env ((tr @ [?P, ?C]) @ pre) cmd = Inl e" "res = Inl e"
        unfolding ends_in_failure_def by blast
      then have "[?P, ?C] @ n2 = ([?P, ?C] @ pre) @ [Call cmd] \<and> placement_kind (Call cmd) \<noteq> None \<and>
        env (tr @ ([?P, ?C] @ pre)) cmd = Inl e \<and> res = Inl e" by simp
      then show "ends_in_failure env tr ([?P, ?C] @ n2) res"
        unfolding ends_in_failure_def by blast
    qed
    have "placement_calls ([?P, ?C] @ n2) = k # placement_calls n2"
      using k by (simp add: placement_calls_Call)
    with pre full s f have "placed (k # ks) env tr ([?P, ?C] @ n2) res"
      by (simp add: placed_def)
    with n2 show ?thesis by (intro exI[of _ "[?P, ?C] @ n2"]) simp
  qed
qed

lemma placing_tail:
  "placing [''windowmove'', ''windowsize'', ''set_desktop_for_window''] env
     (bind (set_window_pos env win_id name x_pos y_pos) (\<lambda>_.
      bind (set_window_size env win_id name width height) (\<lambda>_.
      bind (set_window_desktop env win_id name desktop) (\<lambda>_. ret ()))))"
  unfolding set_window_pos_def set_window_size_def set_window_desktop_def
  by (intro placing_step placing_ret) (simp_all add: placement_kind_def)

lemma arranged_tail:
  "arranged env
     (bind (set_window_pos env win_id name x_pos y_pos) (\<lambda>_.
      bind (set_window_size env win_id name width height) (\<lambda>_.
      bind (set_window_desktop env win_id name desktop) (\<lambda>_. ret ()))))"
  by (rule arranged_placing) (rule placing_tail)

lemma arranged_leaves:
  "arranged env (raise e)" "arranged env (log msg level)"
  by (simp_all add: arranged_quiet)

lemma arranged_if:
  "(c \<Longrightarrow> arranged env a) \<Longrightarrow> (\<not> c \<Longrightarrow> arranged env b) \<Longrightarrow> arranged env (if c then a else b)"
  by simp

lemma arranged_case_option:
  "arranged env a \<Longrightarrow> (\<And>x. arranged env (f x)) \<Longrightarrow>
     arranged env (case v of None \<Rightarrow> a | Some x \<Rightarrow> f x)"
  by (cases v) simp_all

lemma arranged_case_prod:
  "(\<And>a b. arranged env (f a b)) \<Longrightarrow> arranged env (case v of (a, b) \<Rightarrow> f a b)"
  by (cases v) simp

lemma arranged_case_pyval:
  "arranged env a \<Longrightarrow> (\<And>n. arranged env (f n)) \<Longrightarrow> (\<And>s. arranged env (g s)) \<Longrightarrow>
     arranged env (case v of PNone \<Rightarrow> a | PInt n \<Rightarrow> f n | PStr s \<Rightarrow> g s)"
  by (cases v) simp_all

lemma arranged_arrange_window: "arranged env (arrange_window env r screens)"
  unfolding arrange_window_def Let_def
  by (intro arranged_if arranged_case_pyval arranged_case_option arranged_case_prod
      arranged_tail arranged_leaves arranged_bind
      quiet_lift quiet_get_window quiet_calc_size quiet_calc_pos)

text \<open>
  Claim C2 says a failure of the move does not prevent the resize and the desktop
  assignment, nor abort the run. With a failing \<^verbatim>\<open>xdotool windowmove\<close> the
  \<^verbatim>\<open>CalledProcessError\<close> leaves \<^verbatim>\<open>arrange_windows\<close>: no resize, no desktop assignment,
  and the second rule is not processed.
\<close>
theorem failed_move_aborts_rule_and_run:
  "arrange_windows env_move_fails ''config.json''
     (Inr (DocList [[''search_name'' \<mapsto> PStr ''Firefox''],
                    [''search_name'' \<mapsto> PStr ''Terminal'']])) []
   = (Inl (CalledProcessError []),
      [Call [Lit ''xrandr'', Lit ''--listactivemonitors''],
       Call [Lit ''xdotool'', Lit ''get_num_desktops''],
       Print ''info'' [Lit ''There are already '', Val (PInt 1), Lit '' or more desktops''],
       Call [Lit ''xdotool'', Lit ''search'', Lit ''--name'', Lit ''Firefox''],
       Print ''info'' [Lit ''Moving the '', Val (PStr ''Unknown''), Lit '' window '', Lit ''222'',
                      Lit '' to position '', Val (PInt 0), Lit '' x '', Val (PInt 0)],
       Call [Lit ''xdotool'', Lit ''windowmove'', Lit ''222'', Val (PInt 0), Val (PInt 0)]])"
  by code_simp

lemma placement_sequence:
  "bind (set_window_pos env win_id name x_pos y_pos) (\<lambda>_.
   bind (set_window_size env win_id name width height) (\<lambda>_.
   bind (set_window_desktop env win_id name desktop) (\<lambda>_. ret ()))) t =
   (case env (t @ [Print ''info'' [Lit ''Moving the '', Val name, Lit '' window '', Lit win_id,
                      Lit '' to position '', Val (PInt x_pos), Lit '' x '', Val (PInt y_pos)]])
             [Lit ''xdotool'', Lit ''windowmove'', Lit win_id, Val (PInt x_pos), Val (PInt y_pos)] of
      Inl e \<Rightarrow>
        (Inl e, t @
          [Print ''info'' [Lit ''Moving the '', Val name, Lit '' window '', Lit win_id,
                      Lit '' to position '', Val (PInt x_pos), Lit '' x '', Val (PInt y_pos)],
           Call [Lit ''xdotool'', Lit ''windowmove'', Lit win_id, Val (PInt x_pos), Val (PInt y_pos)]])
    | Inr moved \<Rightarrow>
       (case env (t @
          [Print ''info'' [Lit ''Moving the '', Val name, Lit '' window '', Lit win_id,
                      Lit '' to position '', Val (PInt x_pos), Lit '' x '', Val (PInt y_pos)],
           Call [Lit ''xdotool'', Lit ''windowmove'', Lit win_id, Val (PInt x_pos), Val (PInt y_pos)],
           Print ''info'' [Lit ''Setting size '', Val (PInt width), Lit '' x '', Val (PInt height),
                      Lit '' for '', Val name, Lit '' window '', Lit win_id]])
             [Lit ''xdotool'', Lit ''windowsize'', Lit win_id, Val (PInt width), Val (PInt height)] of
          Inl e \<Rightarrow>
            (Inl e, t @
              [Print ''info'' [Lit ''Moving the '', Val name, Lit '' window '', Lit win_id,
                      Lit '' to position '', Val (PInt x_pos), Lit '' x '', Val (PInt y_pos)],
               Call [Lit ''xdotool'', Lit ''windowmove'', Lit win_id, Val (PInt x_pos), Val (PInt y_pos)],
               Print ''info'' [Lit ''Setting size '', Val (PInt width), Lit '' x '', Val (PInt height),
                      Lit '' for '', Val name, Lit '' window '', Lit win_id],
               Call [Lit ''xdotool'', Lit ''windowsize'', Lit win_id, Val (PInt width), Val (PInt height)]])
        | Inr sized \<Rightarrow>
            (case env (t @
              [Print ''info'' [Lit ''Moving the '', Val name, Lit '' window '', Lit win_id,
                      Lit '' to position '', Val (PInt x_pos), Lit '' x '', Val (PInt y_pos)],
               Call [Lit ''xdotool'', Lit ''windowmove'', Lit win_id, Val (PInt x_pos), Val (PInt y_pos)],
               Print ''info'' [Lit ''Setting size '', Val (PInt width), Lit '' x '', Val (PInt height),
                      Lit '' for '', Val name, Lit '' window '', Lit win_id],
               Call [Lit ''xdotool'', Lit ''windowsize'', Lit win_id, Val (PInt width), Val (PInt height)],
               Print ''info'' [Lit ''Moving '', Val name, Lit '' window '', Lit win_id,
                      Lit '' to desktop '', Val desktop]])
                 [Lit ''xdotool'', Lit ''set_desktop_for_window'', Lit win_id, Val desktop] of
               Inl e \<Rightarrow> Inl e | Inr assigned \<Rightarrow> Inr (),
             t @
              [Print ''info'' [Lit ''Moving the '', Val name, Lit '' window '', Lit win_id,
                      Lit '' to position '', Val (PInt x_pos), Lit '' x '', Val (PInt y_pos)],
               Call [Lit ''xdotool'', Lit ''windowmove'', Lit win_id, Val (PInt x_pos), Val (PInt y_pos)],
               Print ''info'' [Lit ''Setting size '', Val (PInt width), Lit '' x '', Val (PInt height),
                      Lit '' for '', Val name, Lit '' window '', Lit win_id],
               Call [Lit ''xdotool'', Lit ''windowsize'', Lit win_id, Val (PInt width), Val (PInt height)],
               Print ''info'' [Lit ''Moving '', Val name, Lit '' window '', Lit win_id,
                      Lit '' to desktop '', Val desktop],
               Call [Lit ''xdotool'', Lit ''set_desktop_for_window'', Lit win_id, Val desktop]])))"
  by (simp add: set_window_pos_def set_window_size_def set_window_desktop_def bind_def
      split: sum.splits)

lemma arrange_window_resolved:
  assumes "merge_defaults r = c"
    and "truthy (c_search_name c) \<or> truthy (c_search_process c)"
    and "c_screen c = PInt i" "i < int (length screens)" "subscript screens i = Inr screen"
    and "get_window env (c_search_name c) (c_search_process c) tr = (Inr (Some win_id), t1)"
    and "s_width screen = Some sw" "calc_size (c_width c) sw t1 = (Inr width, t2)"
    and "s_height screen = Some sh" "calc_size (c_height c) sh t2 = (Inr height, t3)"
    and "calc_pos (c_align c) width height sw sh t3 = (Inr (x, y), t4)"
    and "s_x screen = Some sx" "s_y screen = Some sy"
  shows "arrange_window env r screens tr =
     bind (set_window_pos env win_id (c_name c) (x + sx) (y + sy)) (\<lambda>_.
     bind (set_window_size env win_id (c_name c) width height) (\<lambda>_.
     bind (set_window_desktop env win_id (c_name c) (c_desktop c)) (\<lambda>_. ret ()))) t4"
  using assms by (auto simp add: arrange_window_def Let_def item_def)


lemma arrange_window_places:
  assumes "merge_defaults r = c"
    and "truthy (c_search_name c) \<or> truthy (c_search_process c)"
    and "c_screen c = PInt i" "i < int (length screens)" "subscript screens i = Inr screen"
    and "get_window env (c_search_name c) (c_search_process c) tr = (Inr (Some win_id), t1)"
    and "s_width screen = Some sw" "calc_size (c_width c) sw t1 = (Inr width, t2)"
    and "s_height screen = Some sh" "calc_size (c_height c) sh t2 = (Inr height, t3)"
    and "calc_pos (c_align c) width height sw sh t3 = (Inr (x, y), t4)"
    and "s_x screen = Some sx" "s_y screen = Some sy"
  shows "arrange_window env r screens tr =
     (case env (t4 @ [Print ''info'' [Lit ''Moving the '', Val (c_name c), Lit '' window '', Lit win_id,
                      Lit '' to position '', Val (PInt (x + sx)), Lit '' x '', Val (PInt (y + sy))]])
             [Lit ''xdotool'', Lit ''windowmove'', Lit win_id, Val (PInt (x + sx)), Val (PInt (y + sy))] of
      Inl e \<Rightarrow>
        (Inl e, t4 @
          [Print ''info'' [Lit ''Moving the '', Val (c_name c), Lit '' window '', Lit win_id,
                      Lit '' to position '', Val (PInt (x + sx)), Lit '' x '', Val (PInt (y + sy))],
           Call [Lit ''xdotool'', Lit ''windowmove'', Lit win_id, Val (PInt (x + sx)), Val (PInt (y + sy))]])
    | Inr moved \<Rightarrow>
       (case env (t4 @
          [Print ''info'' [Lit ''Moving the '', Val (c_name c), Lit '' window '', Lit win_id,
                      Lit '' to position '', Val (PInt (x + sx)), Lit '' x '', Val (PInt (y + sy))],
           Call [Lit ''xdotool'', Lit ''windowmove'', Lit win_id, Val (PInt (x + sx)), Val (PInt (y + sy))],
           Print ''info'' [Lit ''Setting size '', Val (PInt width), Lit '' x '', Val (PInt height),
                      Lit '' for '', Val (c_name c), Lit '' window '', Lit win_id]])
             [Lit ''xdotool'', Lit ''windowsize'', Lit win_id, Val (PInt width), Val (PInt height)] of
          Inl e \<Rightarrow>
            (Inl e, t4 @
              [Print ''info'' [Lit ''Moving the '', Val (c_name c), Lit '' window '', Lit win_id,
                      Lit '' to position '', Val (PInt (x + sx)), Lit '' x '', Val (PInt (y + sy))],
               Call [Lit ''xdotool'', Lit ''windowmove'', Lit win_id, Val (PInt (x + sx)), Val (PInt (y + sy))],
               Print ''info'' [Lit ''Setting size '', Val (PInt width), Lit '' x '', Val (PInt height),
                      Lit '' for '', Val (c_name c), Lit '' window '', Lit win_id],
               Call [Lit ''xdotool'', Lit ''windowsize'', Lit win_id, Val (PInt width), Val (PInt height)]])
        | Inr sized \<Rightarrow>
            (case env (t4 @
              [Print ''info'' [Lit ''Moving the '', Val (c_name c), Lit '' window '', Lit win_id,
                      Lit '' to position '', Val (PInt (x + sx)), Lit '' x '', Val (PInt (y + sy))],
               Call [Lit ''xdotool'', Lit ''windowmove'', Lit win_id, Val (PInt (x + sx)), Val (PInt (y + sy))],
               Print ''info'' [Lit ''Setting size '', Val (PInt width), Lit '' x '', Val (PInt height),
                      Lit '' for '', Val (c_name c), Lit '' window '', Lit win_id],
               Call [Lit ''xdotool'', Lit ''windowsize'', Lit win_id, Val (PInt width), Val (PInt height)],
               Print ''info'' [Lit ''Moving '', Val (c_name c), Lit '' window '', Lit win_id,
                      Lit '' to desktop '', Val (c_desktop c)]])
                 [Lit ''xdotool'', Lit ''set_desktop_for_window'', Lit win_id, Val (c_desktop c)] of
               Inl e \<Rightarrow> Inl e | Inr assigned \<Rightarrow> Inr (),
             t4 @
              [Print ''info'' [Lit ''Moving the '', Val (c_name c), Lit '' window '', Lit win_id,
                      Lit '' to position '', Val (PInt (x + sx)), Lit '' x '', Val (PInt (y + sy))],
               Call [Lit ''xdotool'', Lit ''windowmove'', Lit win_id, Val (PInt (x + sx)), Val (PInt (y + sy))],
               Print ''info'' [Lit ''Setting size '', Val (PInt width), Lit '' x '', Val (PInt height),
                      Lit '' for '', Val (c_name c), Lit '' window '', Lit win_id],
               Call [Lit ''xdotool'', Lit ''windowsize'', Lit win_id, Val (PInt width), Val (PInt height)],
               Print ''info'' [Lit ''Moving '', Val (c_name c), Lit '' window '', Lit win_id,
                      Lit '' to desktop '', Val (c_desktop c)],
               Call [Lit ''xdotool'', Lit ''set_desktop_for_window'', Lit win_id, Val (c_desktop c)]])))"
  unfolding arrange_window_resolved[OF assms] by (rule placement_sequence)


text \<open>
  Claim C2, as the code has it. Whatever \<^verbatim>\<open>arrange_window\<close> does for a rule, the
  placement commands it has started are, in this order, the move, the resize and the
  desktop assignment, or a beginning of that list. When it returns normally it has
  started all three or none. A placement command that fails is the last thing that
  happens for the rule, and its exception is the outcome of \<^verbatim>\<open>arrange_window\<close>: the later
  commands are not attempted. When only one or two of them were started, the last one
  failed. An exception that leaves \<^verbatim>\<open>arrange_window\<close> ends the loop over the rules.
  And when the rule is valid, its screen is there with its four geometry keys, a window is
  found and the geometry is computed, the placement does happen: the move is always
  started, the resize exactly when the move succeeded, the desktop assignment exactly
  when the resize succeeded, and the rule returns normally exactly when all three did.
\<close>

theorem placement_calls_in_order_until_failure:
  assumes "arrange_window env r screens tr = (res, tr')"
  shows "(\<exists>new. tr' = tr @ new \<and>
     placement_calls new \<in>
       {[], [''windowmove''], [''windowmove'', ''windowsize''],
        [''windowmove'', ''windowsize'', ''set_desktop_for_window'']} \<and>
     (res = Inr () \<longrightarrow>
        placement_calls new \<in> {[], [''windowmove'', ''windowsize'', ''set_desktop_for_window'']}) \<and>
     (\<forall>pre cmd post e.
         new = pre @ Call cmd # post \<and> placement_kind (Call cmd) \<noteq> None \<and>
         env (tr @ pre) cmd = Inl e \<longrightarrow> post = [] \<and> res = Inl e) \<and>
     (placement_calls new \<in> {[''windowmove''], [''windowmove'', ''windowsize'']} \<longrightarrow>
        (\<exists>pre cmd e. new = pre @ [Call cmd] \<and> placement_kind (Call cmd) \<noteq> None \<and>
                     env (tr @ pre) cmd = Inl e \<and> res = Inl e)) \<and>
     (\<forall>e rest. res = Inl e \<longrightarrow> arrange_loop env (r # rest) screens tr = (Inl e, tr'))) \<and>
   (\<forall>c i screen win_id t1 sw width t2 sh height t3 x y t4 sx sy.
         merge_defaults r = c \<and>
         (truthy (c_search_name c) \<or> truthy (c_search_process c)) \<and>
         c_screen c = PInt i \<and> i < int (length screens) \<and> subscript screens i = Inr screen \<and>
         get_window env (c_search_name c) (c_search_process c) tr = (Inr (Some win_id), t1) \<and>
         s_width screen = Some sw \<and> calc_size (c_width c) sw t1 = (Inr width, t2) \<and>
         s_height screen = Some sh \<and> calc_size (c_height c) sh t2 = (Inr height, t3) \<and>
         calc_pos (c_align c) width height sw sh t3 = (Inr (x, y), t4) \<and>
         s_x screen = Some sx \<and> s_y screen = Some sy \<longrightarrow>
      (res, tr') =
     (case env (t4 @ [Print ''info'' [Lit ''Moving the '', Val (c_name c), Lit '' window '', Lit win_id,
                      Lit '' to position '', Val (PInt (x + sx)), Lit '' x '', Val (PInt (y + sy))]])
             [Lit ''xdotool'', Lit ''windowmove'', Lit win_id, Val (PInt (x + sx)), Val (PInt (y + sy))] of
      Inl e \<Rightarrow>
        (Inl e, t4 @
          [Print ''info'' [Lit ''Moving the '', Val (c_name c), Lit '' window '', Lit win_id,
                      Lit '' to position '', Val (PInt (x + sx)), Lit '' x '', Val (PInt (y + sy))],
           Call [Lit ''xdotool'', Lit ''windowmove'', Lit win_id, Val (PInt (x + sx)), Val (PInt (y + sy))]])
    | Inr moved \<Rightarrow>
       (case env (t4 @
          [Print ''info'' [Lit ''Moving the '', Val (c_name c), Lit '' window '', Lit win_id,
                      Lit '' to position '', Val (PInt (x + sx)), Lit '' x '', Val (PInt (y + sy))],
           Call [Lit ''xdotool'', Lit ''windowmove'', Lit win_id, Val (PInt (x + sx)), Val (PInt (y + sy))],
           Print ''info'' [Lit ''Setting size '', Val (PInt width), Lit '' x '', Val (PInt height),
                      Lit '' for '', Val (c_name c), Lit '' window '', Lit win_id]])
             [Lit ''xdotool'', Lit ''windowsize'', Lit win_id, Val (PInt width), Val (PInt height)] of
          Inl e \<Rightarrow>
            (Inl e, t4 @
              [Print ''info'' [Lit ''Moving the '', Val (c_name c), Lit '' window '', Lit win_id,
                      Lit '' to position '', Val (PInt (x + sx)), Lit '' x '', Val (PInt (y + sy))],
               Call [Lit ''xdotool'', Lit ''windowmove'', Lit win_id, Val (PInt (x + sx)), Val (PInt (y + sy))],
               Print ''info'' [Lit ''Setting size '', Val (PInt width), Lit '' x '', Val (PInt height),
                      Lit '' for '', Val (c_name c), Lit '' window '', Lit win_id],
               Call [Lit ''xdotool'', Lit ''windowsize'', Lit win_id, Val (PInt width), Val (PInt height)]])
        | Inr sized \<Rightarrow>
            (case env (t4 @
              [Print ''info'' [Lit ''Moving the '', Val (c_name c), Lit '' window '', Lit win_id,
                      Lit '' to position '', Val (PInt (x + sx)), Lit '' x '', Val (PInt (y + sy))],
               Call [Lit ''xdotool'', Lit ''windowmove'', Lit win_id, Val (PInt (x + sx)), Val (PInt (y + sy))],
               Print ''info'' [Lit ''Setting size '', Val (PInt width), Lit '' x '', Val (PInt height),
                      Lit '' for '', Val (c_name c), Lit '' window '', Lit win_id],
               Call [Lit ''xdotool'', Lit ''windowsize'', Lit win_id, Val (PInt width), Val (PInt height)],
               Print ''info'' [Lit ''Moving '', Val (c_name c), Lit '' window '', Lit win_id,
                      Lit '' to desktop '', Val (c_desktop c)]])
                 [Lit ''xdotool'', Lit ''set_desktop_for_window'', Lit win_id, Val (c_desktop c)] of
               Inl e \<Rightarrow> Inl e | Inr assigned \<Rightarrow> Inr (),
             t4 @
              [Print ''info'' [Lit ''Moving the '', Val (c_name c), Lit '' window '', Lit win_id,
                      Lit '' to position '', Val (PInt (x + sx)), Lit '' x '', Val (PInt (y + sy))],
               Call [Lit ''xdotool'', Lit ''windowmove'', Lit win_id, Val (PInt (x + sx)), Val (PInt (y + sy))],
               Print ''info'' [Lit ''Setting size '', Val (PInt width), Lit '' x '', Val (PInt height),
                      Lit '' for '', Val (c_name c), Lit '' window '', Lit win_id],
               Call [Lit ''xdotool'', Lit ''windowsize'', Lit win_id, Val (PInt width), Val (PInt height)],
               Print ''info'' [Lit ''Moving '', Val (c_name c), Lit '' window '', Lit win_id,
                      Lit '' to desktop '', Val (c_desktop c)],
               Call [Lit ''xdotool'', Lit ''set_desktop_for_window'', Lit win_id, Val (c_desktop c)]]))))"
proof (intro conjI allI impI)
  let ?all = "[''windowmove'', ''windowsize'', ''set_desktop_for_window'']"
  have 5: "\<forall>e rest. res = Inl e \<longrightarrow> arrange_loop env (r # rest) screens tr = (Inl e, tr')"
    using assms by simp
  from arrangedD[OF arranged_arrange_window assms] obtain new where
    new: "tr' = tr @ new" and d: "placement_calls new = [] \<or> placed ?all env tr new res"
    by blast
  from d show "\<exists>new. tr' = tr @ new \<and>
     placement_calls new \<in>
       {[], [''windowmove''], [''windowmove'', ''windowsize''],
        [''windowmove'', ''windowsize'', ''set_desktop_for_window'']} \<and>
     (res = Inr () \<longrightarrow>
        placement_calls new \<in> {[], [''windowmove'', ''windowsize'', ''set_desktop_for_window'']}) \<and>
     (\<forall>pre cmd post e.
         new = pre @ Call cmd # post \<and> placement_kind (Call cmd) \<noteq> None \<and>
         env (tr @ pre) cmd = Inl e \<longrightarrow> post = [] \<and> res = Inl e) \<and>
     (placement_calls new \<in> {[''windowmove''], [''windowmove'', ''windowsize'']} \<longrightarrow>
        (\<exists>pre cmd e. new = pre @ [Call cmd] \<and> placement_kind (Call cmd) \<noteq> None \<and>
                     env (tr @ pre) cmd = Inl e \<and> res = Inl e)) \<and>
     (\<forall>e rest. res = Inl e \<longrightarrow> arrange_loop env (r # rest) screens tr = (Inl e, tr'))"
  proof
    assume e: "placement_calls new = []"
    then have "\<forall>ev \<in> set new. placement_kind ev = None" by (simp add: placement_calls_Nil_iff)
    then have "\<forall>pre cmd post e.
         new = pre @ Call cmd # post \<and> placement_kind (Call cmd) \<noteq> None \<and>
         env (tr @ pre) cmd = Inl e \<longrightarrow> post = [] \<and> res = Inl e"
      by auto
    with new e 5 show ?thesis by (intro exI[of _ new]) simp
  next
    assume p: "placed ?all env tr new res"
    then obtain rest where rest: "?all = placement_calls new @ rest"
      by (auto simp: placed_def)
    then have 1: "placement_calls new \<in>
       {[], [''windowmove''], [''windowmove'', ''windowsize''], ?all}"
      by (auto simp: Cons_eq_append_conv)
    from p have 2: "res = Inr () \<longrightarrow> placement_calls new \<in> {[], ?all}"
      by (simp add: placed_def)
    from p have 3: "\<forall>pre cmd post e.
         new = pre @ Call cmd # post \<and> placement_kind (Call cmd) \<noteq> None \<and>
         env (tr @ pre) cmd = Inl e \<longrightarrow> post = [] \<and> res = Inl e"
      unfolding placed_def stops_at_failure_def by blast
    from p have 4: "placement_calls new \<in> {[''windowmove''], [''windowmove'', ''windowsize'']} \<longrightarrow>
        (\<exists>pre cmd e. new = pre @ [Call cmd] \<and> placement_kind (Call cmd) \<noteq> None \<and>
                     env (tr @ pre) cmd = Inl e \<and> res = Inl e)"
      by (auto simp: placed_def ends_in_failure_def)
    from new 1 2 3 4 5 show ?thesis by (intro exI[of _ new] conjI)
  qed
next
  fix c i screen win_id t1 sw width t2 sh height t3 x y t4 sx sy
  assume h: "merge_defaults r = c \<and>
         (truthy (c_search_name c) \<or> truthy (c_search_process c)) \<and>
         c_screen c = PInt i \<and> i < int (length screens) \<and> subscript screens i = Inr screen \<and>
         get_window env (c_search_name c) (c_search_process c) tr = (Inr (Some win_id), t1) \<and>
         s_width screen = Some sw \<and> calc_size (c_width c) sw t1 = (Inr width, t2) \<and>
         s_height screen = Some sh \<and> calc_size (c_height c) sh t2 = (Inr height, t3) \<and>
         calc_pos (c_align c) width height sw sh t3 = (Inr (x, y), t4) \<and>
         s_x screen = Some sx \<and> s_y screen = Some sy"
  have "arrange_window env r screens tr =
     (case env (t4 @ [Print ''info'' [Lit ''Moving the '', Val (c_name c), Lit '' window '', Lit win_id,
                      Lit '' to position '', Val (PInt (x + sx)), Lit '' x '', Val (PInt (y + sy))]])
             [Lit ''xdotool'', Lit ''windowmove'', Lit win_id, Val (PInt (x + sx)), Val (PInt (y + sy))] of
      Inl e \<Rightarrow>
        (Inl e, t4 @
          [Print ''info'' [Lit ''Moving the '', Val (c_name c), Lit '' window '', Lit win_id,
                      Lit '' to position '', Val (PInt (x + sx)), Lit '' x '', Val (PInt (y + sy))],
           Call [Lit ''xdotool'', Lit ''windowmove'', Lit win_id, Val (PInt (x + sx)), Val (PInt (y + sy))]])
    | Inr moved \<Rightarrow>
       (case env (t4 @
          [Print ''info'' [Lit ''Moving the '', Val (c_name c), Lit '' window '', Lit win_id,
                      Lit '' to position '', Val (PInt (x + sx)), Lit '' x '', Val (PInt (y + sy))],
           Call [Lit ''xdotool'', Lit ''windowmove'', Lit win_id, Val (PInt (x + sx)), Val (PInt (y + sy))],
           Print ''info'' [Lit ''Setting size '', Val (PInt width), Lit '' x '', Val (PInt height),
                      Lit '' for '', Val (c_name c), Lit '' window '', Lit win_id]])
             [Lit ''xdotool'', Lit ''windowsize'', Lit win_id, Val (PInt width), Val (PInt height)] of
          Inl e \<Rightarrow>
            (Inl e, t4 @
              [Print ''info'' [Lit ''Moving the '', Val (c_name c), Lit '' window '', Lit win_id,
                      Lit '' to position '', Val (PInt (x + sx)), Lit '' x '', Val (PInt (y + sy))],
               Call [Lit ''xdotool'', Lit ''windowmove'', Lit win_id, Val (PInt (x + sx)), Val (PInt (y + sy))],
               Print ''info'' [Lit ''Setting size '', Val (PInt width), Lit '' x '', Val (PInt height),
                      Lit '' for '', Val (c_name c), Lit '' window '', Lit win_id],
               Call [Lit ''xdotool'', Lit ''windowsize'', Lit win_id, Val (PInt width), Val (PInt height)]])
        | Inr sized \<Rightarrow>
            (case env (t4 @
              [Print ''info'' [Lit ''Moving the '', Val (c_name c), Lit '' window '', Lit win_id,
                      Lit '' to position '', Val (PInt (x + sx)), Lit '' x '', Val (PInt (y + sy))],
               Call [Lit ''xdotool'', Lit ''windowmove'', Lit win_id, Val (PInt (x + sx)), Val (PInt (y + sy))],
               Print ''info'' [Lit ''Setting size '', Val (PInt width), Lit '' x '', Val (PInt height),
                      Lit '' for '', Val (c_name c), Lit '' window '', Lit win_id],
               Call [Lit ''xdotool'', Lit ''windowsize'', Lit win_id, Val (PInt width), Val (PInt height)],
               Print ''info'' [Lit ''Moving '', Val (c_name c), Lit '' window '', Lit win_id,
                      Lit '' to desktop '', Val (c_desktop c)]])
                 [Lit ''xdotool'', Lit ''set_desktop_for_window'', Lit win_id, Val (c_desktop c)] of
               Inl e \<Rightarrow> Inl e | Inr assigned \<Rightarrow> Inr (),
             t4 @
              [Print ''info'' [Lit ''Moving the '', Val (c_name c), Lit '' window '', Lit win_id,
                      Lit '' to position '', Val (PInt (x + sx)), Lit '' x '', Val (PInt (y + sy))],
               Call [Lit ''xdotool'', Lit ''windowmove'', Lit win_id, Val (PInt (x + sx)), Val (PInt (y + sy))],
               Print ''info'' [Lit ''Setting size '', Val (PInt width), Lit '' x '', Val (PInt height),
                      Lit '' for '', Val (c_name c), Lit '' window '', Lit win_id],
               Call [Lit ''xdotool'', Lit ''windowsize'', Lit win_id, Val (PInt width), Val (PInt height)],
               Print ''info'' [Lit ''Moving '', Val (c_name c), Lit '' window '', Lit win_id,
                      Lit '' to desktop '', Val (c_desktop c)],
               Call [Lit ''xdotool'', Lit ''set_desktop_for_window'', Lit win_id, Val (c_desktop c)]])))"
    using h by (intro arrange_window_places[where i=i and screen=screen and ?t1.0=t1 and ?t2.0=t2
          and ?t3.0=t3 and sw=sw and sh=sh]) simp_all
  with assms show "(res, tr') =
     (case env (t4 @ [Print ''info'' [Lit ''Moving the '', Val (c_name c), Lit '' window '', Lit win_id,
                      Lit '' to position '', Val (PInt (x + sx)), Lit '' x '', Val (PInt (y + sy))]])
             [Lit ''xdotool'', Lit ''windowmove'', Lit win_id, Val (PInt (x + sx)), Val (PInt (y + sy))] of
      Inl e \<Rightarrow>
        (Inl e, t4 @
          [Print ''info'' [Lit ''Moving the '', Val (c_name c), Lit '' window '', Lit win_id,
                      Lit '' to position '', Val (PInt (x + sx)), Lit '' x '', Val (PInt (y + sy))],
           Call [Lit ''xdotool'', Lit ''windowmove'', Lit win_id, Val (PInt (x + sx)), Val (PInt (y + sy))]])
    | Inr moved \<Rightarrow>
       (case env (t4 @
          [Print ''info'' [Lit ''Moving the '', Val (c_name c), Lit '' window '', Lit win_id,
                      Lit '' to position '', Val (PInt (x + sx)), Lit '' x '', Val (PInt (y + sy))],
           Call [Lit ''xdotool'', Lit ''windowmove'', Lit win_id, Val (PInt (x + sx)), Val (PInt (y + sy))],
           Print ''info'' [Lit ''Setting size '', Val (PInt width), Lit '' x '', Val (PInt height),
                      Lit '' for '', Val (c_name c), Lit '' window '', Lit win_id]])
             [Lit ''xdotool'', Lit ''windowsize'', Lit win_id, Val (PInt width), Val (PInt height)] of
          Inl e \<Rightarrow>
            (Inl e, t4 @
              [Print ''info'' [Lit ''Moving the '', Val (c_name c), Lit '' window '', Lit win_id,
                      Lit '' to position '', Val (PInt (x + sx)), Lit '' x '', Val (PInt (y + sy))],
               Call [Lit ''xdotool'', Lit ''windowmove'', Lit win_id, Val (PInt (x + sx)), Val (PInt (y + sy))],
               Print ''info'' [Lit ''Setting size '', Val (PInt width), Lit '' x '', Val (PInt height),
                      Lit '' for '', Val (c_name c), Lit '' window '', Lit win_id],
               Call [Lit ''xdotool'', Lit ''windowsize'', Lit win_id, Val (PInt width), Val (PInt height)]])
        | Inr sized \<Rightarrow>
            (case env (t4 @
              [Print ''info'' [Lit ''Moving the '', Val (c_name c), Lit '' window '', Lit win_id,
                      Lit '' to position '', Val (PInt (x + sx)), Lit '' x '', Val (PInt (y + sy))],
               Call [Lit ''xdotool'', Lit ''windowmove'', Lit win_id, Val (PInt (x + sx)), Val (PInt (y + sy))],
               Print ''info'' [Lit ''Setting size '', Val (PInt width), Lit '' x '', Val (PInt height),
                      Lit '' for '', Val (c_name c), Lit '' window '', Lit win_id],
               Call [Lit ''xdotool'', Lit ''windowsize'', Lit win_id, Val (PInt width), Val (PInt height)],
               Print ''info'' [Lit ''Moving '', Val (c_name c), Lit '' window '', Lit win_id,
                      Lit '' to desktop '', Val (c_desktop c)]])
                 [Lit ''xdotool'', Lit ''set_desktop_for_window'', Lit win_id, Val (c_desktop c)] of
               Inl e \<Rightarrow> Inl e | Inr assigned \<Rightarrow> Inr (),
             t4 @
              [Print ''info'' [Lit ''Moving the '', Val (c_name c), Lit '' window '', Lit win_id,
                      Lit '' to position '', Val (PInt (x + sx)), Lit '' x '', Val (PInt (y + sy))],
               Call [Lit ''xdotool'', Lit ''windowmove'', Lit win_id, Val (PInt (x + sx)), Val (PInt (y + sy))],
               Print ''info'' [Lit ''Setting size '', Val (PInt width), Lit '' x '', Val (PInt height),
                      Lit '' for '', Val (c_name c), Lit '' window '', Lit win_id],
               Call [Lit ''xdotool'', Lit ''windowsize'', Lit win_id, Val (PInt width), Val (PInt height)],
               Print ''info'' [Lit ''Moving '', Val (c_name c), Lit '' window '', Lit win_id,
                      Lit '' to desktop '', Val (c_desktop c)],
               Call [Lit ''xdotool'', Lit ''set_desktop_for_window'', Lit win_id, Val (c_desktop c)]])))"
    by simp
qed

theorem placement_calls_in_order_until_failure_witness:
  "merge_defaults [''search_name'' \<mapsto> PStr ''Firefox''] =
     \<lparr>c_name = PStr ''Unknown'', c_search_name = PStr ''Firefox'', c_search_process = PStr [],
      c_screen = PInt 0, c_desktop = PInt 2, c_width = PInt 0, c_height = PInt 0,
      c_align = PStr ''top left''\<rparr> \<and>
   truthy (PStr ''Firefox'') \<and> (0::int) < int (length [screen_DP4, screen_DP2]) \<and>
   subscript [screen_DP4, screen_DP2] 0 = Inr screen_DP4 \<and>
   get_window env_ok (PStr ''Firefox'') (PStr []) [] =
     (Inr (Some ''222''), [Call [Lit ''xdotool'', Lit ''search'', Lit ''--name'', Lit ''Firefox'']]) \<and>
   s_width screen_DP4 = Some 2560 \<and> s_height screen_DP4 = Some 1600 \<and>
   s_x screen_DP4 = Some 0 \<and> s_y screen_DP4 = Some 0 \<and>
   calc_size (PInt 0) 2560 [Call [Lit ''xdotool'', Lit ''search'', Lit ''--name'', Lit ''Firefox'']] =
     (Inr 0, [Call [Lit ''xdotool'', Lit ''search'', Lit ''--name'', Lit ''Firefox'']]) \<and>
   calc_size (PInt 0) 1600 [Call [Lit ''xdotool'', Lit ''search'', Lit ''--name'', Lit ''Firefox'']] =
     (Inr 0, [Call [Lit ''xdotool'', Lit ''search'', Lit ''--name'', Lit ''Firefox'']]) \<and>
   calc_pos (PStr ''top left'') 0 0 2560 1600
       [Call [Lit ''xdotool'', Lit ''search'', Lit ''--name'', Lit ''Firefox'']] =
     (Inr (0, 0), [Call [Lit ''xdotool'', Lit ''search'', Lit ''--name'', Lit ''Firefox'']]) \<and>
   arrange_window env_ok [''search_name'' \<mapsto> PStr ''Firefox''] [screen_DP4, screen_DP2] []
     = (Inr (),
        [Call [Lit ''xdotool'', Lit ''search'', Lit ''--name'', Lit ''Firefox''],
         Print ''info'' [Lit ''Moving the '', Val (PStr ''Unknown''), Lit '' window '', Lit ''222'',
                        Lit '' to position '', Val (PInt 0), Lit '' x '', Val (PInt 0)],
         Call [Lit ''xdotool'', Lit ''windowmove'', Lit ''222'', Val (PInt 0), Val (PInt 0)],
         Print ''info'' [Lit ''Setting size '', Val (PInt 0), Lit '' x '', Val (PInt 0),
                        Lit '' for '', Val (PStr ''Unknown''), Lit '' window '', Lit ''222''],
         Call [Lit ''xdotool'', Lit ''windowsize'', Lit ''222'', Val (PInt 0), Val (PInt 0)],
         Print ''info'' [Lit ''Moving '', Val (PStr ''Unknown''), Lit '' window '', Lit ''222'',
                        Lit '' to desktop '', Val (PInt 2)],
         Call [Lit ''xdotool'', Lit ''set_desktop_for_window'', Lit ''222'', Val (PInt 2)]]) \<and>
   arrange_window env_move_fails [''search_name'' \<mapsto> PStr ''Firefox''] [screen_DP4, screen_DP2] []
     = (Inl (CalledProcessError []),
        [Call [Lit ''xdotool'', Lit ''search'', Lit ''--name'', Lit ''Firefox''],
         Print ''info'' [Lit ''Moving the '', Val (PStr ''Unknown''), Lit '' window '', Lit ''222'',
                        Lit '' to position '', Val (PInt 0), Lit '' x '', Val (PInt 0)],
         Call [Lit ''xdotool'', Lit ''windowmove'', Lit ''222'', Val (PInt 0), Val (PInt 0)]]) \<and>
   placement_kind (Call [Lit ''xdotool'', Lit ''windowmove'', Lit ''222'', Val (PInt 0), Val (PInt 0)])
     \<noteq> None"
proof -
  let ?r = "[''search_name'' \<mapsto> PStr ''Firefox'']"
  let ?t = "[Call [Lit ''xdotool'', Lit ''search'', Lit ''--name'', Lit ''Firefox'']]"
  let ?c = "\<lparr>c_name = PStr ''Unknown'', c_search_name = PStr ''Firefox'', c_search_process = PStr [],
      c_screen = PInt 0, c_desktop = PInt 2, c_width = PInt 0, c_height = PInt 0,
      c_align = PStr ''top left''\<rparr>"
  have m: "merge_defaults ?r = ?c" by (simp add: merge_defaults_def dict_get_def)
  have s: "subscript [screen_DP4, screen_DP2] 0 = Inr screen_DP4" by (simp add: subscript_def)
  have g: "get_window env_ok (PStr ''Firefox'') (PStr []) [] = (Inr (Some ''222''), ?t)"
    by code_simp
  have f: "s_width screen_DP4 = Some 2560" "s_height screen_DP4 = Some 1600"
    "s_x screen_DP4 = Some 0" "s_y screen_DP4 = Some 0"
    by (simp_all add: screen_DP4_def)
  have w: "calc_size (PInt 0) 2560 ?t = (Inr 0, ?t)" "calc_size (PInt 0) 1600 ?t = (Inr 0, ?t)"
    by (simp_all add: calc_size_def)
  have p: "calc_pos (PStr ''top left'') 0 0 2560 1600 ?t = (Inr (0, 0), ?t)"
    by (rule calc_pos_top_left)
  have k: "placement_kind (Call [Lit ''xdotool'', Lit ''windowmove'', Lit ''222'', Val (PInt 0), Val (PInt 0)])
     \<noteq> None"
    by (simp add: placement_kind_def)
  obtain res tr' where h: "arrange_window env_ok ?r [screen_DP4, screen_DP2] [] = (res, tr')"
    by (cases "arrange_window env_ok ?r [screen_DP4, screen_DP2] []")
  from placement_calls_in_order_until_failure[OF h] m s g f w p
  have ok: "(res, tr') = (Inr (),
        [Call [Lit ''xdotool'', Lit ''search'', Lit ''--name'', Lit ''Firefox''],
         Print ''info'' [Lit ''Moving the '', Val (PStr ''Unknown''), Lit '' window '', Lit ''222'',
                        Lit '' to position '', Val (PInt 0), Lit '' x '', Val (PInt 0)],
         Call [Lit ''xdotool'', Lit ''windowmove'', Lit ''222'', Val (PInt 0), Val (PInt 0)],
         Print ''info'' [Lit ''Setting size '', Val (PInt 0), Lit '' x '', Val (PInt 0),
                        Lit '' for '', Val (PStr ''Unknown''), Lit '' window '', Lit ''222''],
         Call [Lit ''xdotool'', Lit ''windowsize'', Lit ''222'', Val (PInt 0), Val (PInt 0)],
         Print ''info'' [Lit ''Moving '', Val (PStr ''Unknown''), Lit '' window '', Lit ''222'',
                        Lit '' to desktop '', Val (PInt 2)],
         Call [Lit ''xdotool'', Lit ''set_desktop_for_window'', Lit ''222'', Val (PInt 2)]])"
    by (simp add: env_ok_def)
  have fail: "arrange_window env_move_fails ?r [screen_DP4, screen_DP2] []
     = (Inl (CalledProcessError []),
        [Call [Lit ''xdotool'', Lit ''search'', Lit ''--name'', Lit ''Firefox''],
         Print ''info'' [Lit ''Moving the '', Val (PStr ''Unknown''), Lit '' window '', Lit ''222'',
                        Lit '' to position '', Val (PInt 0), Lit '' x '', Val (PInt 0)],
         Call [Lit ''xdotool'', Lit ''windowmove'', Lit ''222'', Val (PInt 0), Val (PInt 0)]])"
    by code_simp
  from m s g f w p k ok h fail show ?thesis by simp
qed

end
